theory Spec2Isabelle
  imports Complex_Main "HOL-Library.Word"
begin

unbundle bit_operations_syntax

section \<open>Touch controller driver (TP_lib/gt1151.py)\<close>

subsection \<open>Coordinate remapping\<close>

text \<open>
  Class constants of \<open>GT1151\<close>. The touch driver works in the landscape orientation of the
  panel: \<open>X_MAX = 250\<close> and \<open>Y_MAX = 122\<close>.
\<close>

definition POINT_INFO :: int where
  "POINT_INFO = 0x814E"

definition POINT1_REG :: int where
  "POINT1_REG = 0x814F"

definition X_MAX :: int where
  "X_MAX = 250"

definition Y_MAX :: int where
  "Y_MAX = 122"

text \<open>
  Python's \<open>int(a / b)\<close> on integers \<open>a\<close> and a positive \<open>b\<close>: true division followed by
  truncation towards zero. The divisor used by the driver is 1024, a power of two, so the
  float quotient is exact for every numerator below \<open>2^53\<close> in magnitude and the result is
  the truncated exact quotient.
\<close>

definition int_truediv :: "int \<Rightarrow> int \<Rightarrow> int" where
  "int_truediv a b = (if 0 \<le> a then a div b else - ((- a) div b))"

definition map_x :: "int \<Rightarrow> int" where
  "map_x raw_x = int_truediv (raw_x * X_MAX) 1024"

definition map_y :: "int \<Rightarrow> int" where
  "map_y raw_y = int_truediv (raw_y * Y_MAX) 1024"

subsection \<open>Device state and register access\<close>

text \<open>
  Exceptions (subclasses of \<open>Exception\<close>) that occur in the modelled code: \<open>IndexError\<close>
  from list indexing, \<open>IOError\<close> from a failing pin read, \<open>RuntimeError\<close> standing for
  whatever a user callback raises. Exceptions of the I2C library are absorbed by
  \<open>_read_reg\<close> and \<open>_write_reg\<close> and show up as \<open>None\<close> resp. \<open>False\<close>.
\<close>

datatype py_exc = IndexError | IOError | RuntimeError

text \<open>Indexing a list with a non-negative index, raising \<open>IndexError\<close> out of range.\<close>

definition get_item :: "'a list \<Rightarrow> nat \<Rightarrow> py_exc + 'a" where
  "get_item xs i = (if i < length xs then Inr (xs ! i) else Inl IndexError)"

definition set_item :: "'a list \<Rightarrow> nat \<Rightarrow> 'a \<Rightarrow> py_exc + 'a list" where
  "set_item xs i v = (if i < length xs then Inr (xs[i := v]) else Inl IndexError)"

text \<open>
  \<open>GT_Development\<close> and \<open>GT_Old\<close> have the same four attributes. The two objects of a
  driver are created separately in \<open>__init__\<close>, so they are two values here.
\<close>

record touch_frame =
  Touch :: int
  X :: "int list"
  Y :: "int list"
  S :: "int list"

definition GT_Development :: touch_frame where
  "GT_Development = \<lparr>Touch = 0, X = replicate 5 0, Y = replicate 5 0, S = replicate 5 0\<rparr>"

definition GT_Old :: touch_frame where
  "GT_Old = \<lparr>Touch = 0, X = replicate 5 0, Y = replicate 5 0, S = replicate 5 0\<rparr>"

text \<open>
  The SMBus object is outside the repository. It is a parameter: \<open>read_block hi lo n\<close>
  is the outcome of the address write, the 1 ms pause and the block read of \<open>n\<close> bytes that
  \<open>_read_reg\<close> performs for the register \<open>hi * 256 + lo\<close> (\<open>None\<close> when one of the bus calls
  raises), and \<open>write_block hi payload\<close> tells whether the block write of \<open>_write_reg\<close>
  succeeds. Every access that reaches the bus is recorded in \<open>bus_log\<close>.
\<close>

record i2c_bus =
  read_block :: "int \<Rightarrow> int \<Rightarrow> int \<Rightarrow> int list option"
  write_block :: "int \<Rightarrow> int list \<Rightarrow> bool"

datatype bus_op = Reg_read int int int | Reg_write int "int list"

record gt1151 =
  mock_mode :: bool
  bus :: "i2c_bus option"
  i2c_addr :: int
  scan_dir :: int
  gt_dev :: touch_frame
  gt_old :: touch_frame
  bus_log :: "bus_op list"

definition read_reg :: "gt1151 \<Rightarrow> int \<Rightarrow> int \<Rightarrow> int list option \<times> gt1151" where
  "read_reg self reg_addr len =
     (case bus self of
        None \<Rightarrow> (Some (replicate (nat len) 0), self)
      | Some b \<Rightarrow>
          if mock_mode self then (Some (replicate (nat len) 0), self)
          else
            let addr_high = drop_bit 8 reg_addr AND 0xFF;
                addr_low = reg_addr AND 0xFF
            in (read_block b addr_high addr_low len,
                self\<lparr>bus_log := bus_log self @ [Reg_read addr_high addr_low len]\<rparr>))"

definition write_reg :: "gt1151 \<Rightarrow> int \<Rightarrow> int list \<Rightarrow> bool \<times> gt1151" where
  "write_reg self reg_addr data =
     (case bus self of
        None \<Rightarrow> (True, self)
      | Some b \<Rightarrow>
          if mock_mode self then (True, self)
          else
            let addr_high = drop_bit 8 reg_addr AND 0xFF;
                addr_low = reg_addr AND 0xFF;
                write_data = addr_low # data
            in (write_block b addr_high write_data,
                self\<lparr>bus_log := bus_log self @ [Reg_write addr_high write_data]\<rparr>))"

subsection \<open>Reading the touch points\<close>

text \<open>
  One iteration of the \<open>for i in range(touch_count)\<close> loop of \<open>read_touch\<close>. The first
  component is the exception that left the iteration, if any; the second is the device
  state with the assignments made before it.
\<close>

definition parse_point :: "int list \<Rightarrow> nat \<Rightarrow> touch_frame \<Rightarrow> py_exc option \<times> touch_frame" where
  "parse_point point_data i dev =
     (let offset = i * 8 in
      case get_item point_data (offset + 1) of Inl e \<Rightarrow> (Some e, dev) | Inr xl \<Rightarrow>
      case get_item point_data (offset + 2) of Inl e \<Rightarrow> (Some e, dev) | Inr xh \<Rightarrow>
      case get_item point_data (offset + 3) of Inl e \<Rightarrow> (Some e, dev) | Inr yl \<Rightarrow>
      case get_item point_data (offset + 4) of Inl e \<Rightarrow> (Some e, dev) | Inr yh \<Rightarrow>
      let x = xl OR push_bit 8 xh;
          y = yl OR push_bit 8 yh
      in case set_item (X dev) i (map_x x) of Inl e \<Rightarrow> (Some e, dev) | Inr xs \<Rightarrow>
         case set_item (Y dev) i (map_y y) of Inl e \<Rightarrow> (Some e, dev\<lparr>X := xs\<rparr>)
         | Inr ys \<Rightarrow> (None, dev\<lparr>X := xs, Y := ys\<rparr>))"

fun parse_points :: "int list \<Rightarrow> nat \<Rightarrow> nat \<Rightarrow> touch_frame \<Rightarrow> py_exc option \<times> touch_frame" where
  "parse_points point_data i 0 dev = (None, dev)"
| "parse_points point_data i (Suc n) dev =
     (case parse_point point_data i dev of
        (Some e, dev') \<Rightarrow> (Some e, dev')
      | (None, dev') \<Rightarrow> parse_points point_data (Suc i) n dev')"

text \<open>
  \<open>read_touch\<close> returns the touch count and the updated driver. \<open>if not point_info\<close> and
  \<open>if point_data\<close> are Python truth tests: \<open>None\<close> and the empty list are false. An
  exception inside the \<open>try\<close> block reaches the handler, which resets \<open>Touch\<close> and returns 0.
\<close>

definition read_touch :: "gt1151 \<Rightarrow> int \<times> gt1151" where
  "read_touch self =
     (if mock_mode self then
        (0, self\<lparr>gt_dev := (gt_dev self)\<lparr>Touch := 0, X := replicate 5 0, Y := replicate 5 0\<rparr>\<rparr>)
      else
        case read_reg self POINT_INFO 1 of
          (None, s1) \<Rightarrow> (0, s1)
        | (Some [], s1) \<Rightarrow> (0, s1)
        | (Some (info # _), s1) \<Rightarrow>
            let touch_count = info AND 0x0F in
            if touch_count > 0 \<and> touch_count \<le> 5 then
              (case read_reg s1 POINT1_REG (touch_count * 8) of
                 (Some (d # ds), s2) \<Rightarrow>
                   (case parse_points (d # ds) 0 (nat touch_count)
                           ((gt_dev s2)\<lparr>Touch := touch_count\<rparr>) of
                      (Some e, dev') \<Rightarrow> (0, s2\<lparr>gt_dev := dev'\<lparr>Touch := 0\<rparr>\<rparr>)
                    | (None, dev') \<Rightarrow>
                        (touch_count, snd (write_reg (s2\<lparr>gt_dev := dev'\<rparr>) POINT_INFO [0x00])))
               | (_, s2) \<Rightarrow> (0, s2\<lparr>gt_dev := (gt_dev s2)\<lparr>Touch := 0\<rparr>\<rparr>))
            else (0, s1\<lparr>gt_dev := (gt_dev s1)\<lparr>Touch := 0\<rparr>\<rparr>))"

text \<open>
  \<open>scan\<close> is outside any \<open>try\<close>: an \<open>IndexError\<close> of its three assignments would leave it.
\<close>

definition scan :: "gt1151 \<Rightarrow> int \<Rightarrow> py_exc + (int \<times> gt1151)" where
  "scan self sd =
     (let s0 = self\<lparr>scan_dir := sd\<rparr> in
      case get_item (X (gt_dev s0)) 0 of Inl e \<Rightarrow> Inl e | Inr x0 \<Rightarrow>
      case set_item (X (gt_old s0)) 0 x0 of Inl e \<Rightarrow> Inl e | Inr old_x \<Rightarrow>
      case get_item (Y (gt_dev s0)) 0 of Inl e \<Rightarrow> Inl e | Inr y0 \<Rightarrow>
      case set_item (Y (gt_old s0)) 0 y0 of Inl e \<Rightarrow> Inl e | Inr old_y \<Rightarrow>
      Inr (read_touch
             (s0\<lparr>gt_old := (gt_old s0)\<lparr>X := old_x, Y := old_y, Touch := Touch (gt_dev s0)\<rparr>\<rparr>)))"

text \<open>The driver as \<open>__init__\<close> leaves it on a detected controller.\<close>

definition init_hardware :: "i2c_bus \<Rightarrow> gt1151" where
  "init_hardware b =
     \<lparr>mock_mode = False, bus = Some b, i2c_addr = 0x5D, scan_dir = 0,
      gt_dev = GT_Development, gt_old = GT_Old, bus_log = []\<rparr>"

definition init_mock :: gt1151 where
  "init_mock =
     \<lparr>mock_mode = True, bus = None, i2c_addr = 0x5D, scan_dir = 0,
      gt_dev = GT_Development, gt_old = GT_Old, bus_log = []\<rparr>"

subsection \<open>Concrete controllers used in the examples\<close>

text \<open>
  A controller that reports two fingers (status byte \<open>0x82\<close>: buffer-ready bit plus count
  2), one whose count nibble is 6, and one whose bus calls all fail. \<open>stale_driver\<close> is a
  driver that has decoded the two-finger report and then lost its controller.
\<close>

definition two_finger_data :: "int list" where
  "two_finger_data = [0x80, 0x00, 0x02, 0xFF, 0x03, 0x10, 0x00, 0x00,
                      0x81, 0x10, 0x00, 0x40, 0x00, 0x10, 0x00, 0x00]"

definition two_finger_bus :: i2c_bus where
  "two_finger_bus =
     \<lparr>read_block = (\<lambda>hi lo n.
        if hi = 0x81 \<and> lo = 0x4E then Some [0x82]
        else if hi = 0x81 \<and> lo = 0x4F then Some (take (nat n) two_finger_data)
        else None),
      write_block = (\<lambda>hi payload. True)\<rparr>"

definition nibble6_bus :: i2c_bus where
  "nibble6_bus =
     \<lparr>read_block = (\<lambda>hi lo n. Some (replicate (nat n) 0x86)),
      write_block = (\<lambda>hi payload. True)\<rparr>"

definition dead_bus :: i2c_bus where
  "dead_bus = \<lparr>read_block = (\<lambda>hi lo n. None), write_block = (\<lambda>hi payload. False)\<rparr>"

definition two_finger_frame :: touch_frame where
  "two_finger_frame =
     \<lparr>Touch = 2, X = [125, 3, 0, 0, 0], Y = [121, 7, 0, 0, 0], S = [0, 0, 0, 0, 0]\<rparr>"

definition stale_driver :: gt1151 where
  "stale_driver = (init_hardware dead_bus)\<lparr>gt_dev := two_finger_frame\<rparr>"

section \<open>Button input handler (display/button_input.py)\<close>

text \<open>
  A user callback is modelled by what happens when it is called: it returns, or it raises
  an exception. \<open>handler_event\<close> records the calls made to user callbacks and the error
  lines written to the log. Readings of \<open>time.time()\<close> are real numbers (seconds) and are
  passed to the handlers by the caller.
\<close>

datatype callback = Returns | Raises py_exc

datatype handler_event =
    Short_press_called
  | Long_press_called
  | Error_handler_called
  | Error_logged string

record button_handler =
  long_press_threshold :: real
  press_start_time :: "real option"
  long_press_triggered :: bool
  running :: bool
  on_short_press :: "callback option"
  on_long_press :: "callback option"
  events :: "handler_event list"

definition invoke :: "callback \<Rightarrow> handler_event \<Rightarrow> button_handler \<Rightarrow> py_exc option \<times> button_handler" where
  "invoke cb ev self =
     (case cb of
        Returns \<Rightarrow> (None, self\<lparr>events := events self @ [ev]\<rparr>)
      | Raises e \<Rightarrow> (Some e, self\<lparr>events := events self @ [ev]\<rparr>))"

definition try_except ::
  "py_exc option \<times> button_handler \<Rightarrow> (py_exc \<Rightarrow> button_handler \<Rightarrow> py_exc option \<times> button_handler)
     \<Rightarrow> py_exc option \<times> button_handler" where
  "try_except body handler =
     (case body of (None, s) \<Rightarrow> (None, s) | (Some e, s) \<Rightarrow> handler e s)"

definition log_error :: "string \<Rightarrow> button_handler \<Rightarrow> py_exc option \<times> button_handler" where
  "log_error msg self = (None, self\<lparr>events := events self @ [Error_logged msg]\<rparr>)"

definition on_button_pressed :: "real \<Rightarrow> button_handler \<Rightarrow> button_handler" where
  "on_button_pressed now self = self\<lparr>press_start_time := Some now, long_press_triggered := False\<rparr>"

definition on_button_released :: "real \<Rightarrow> button_handler \<Rightarrow> py_exc option \<times> button_handler" where
  "on_button_released now self =
     (case press_start_time self of
        None \<Rightarrow> (None, self)
      | Some start \<Rightarrow>
          let duration = now - start;
              s1 = self\<lparr>press_start_time := None\<rparr>
          in if long_press_triggered s1 then (None, s1)
             else if duration < long_press_threshold s1 then
               (case on_short_press s1 of
                  None \<Rightarrow> (None, s1)
                | Some cb \<Rightarrow>
                    try_except (invoke cb Short_press_called s1)
                      (\<lambda>e. log_error ''Error in short press callback''))
             else (None, s1))"

definition monitor_iteration :: "real \<Rightarrow> bool \<Rightarrow> button_handler \<Rightarrow> py_exc option \<times> button_handler" where
  "monitor_iteration now is_pressed self =
     (case press_start_time self of
        None \<Rightarrow> (None, self)
      | Some start \<Rightarrow>
          if \<not> long_press_triggered self then
            let duration = now - start
            in if duration \<ge> long_press_threshold self \<and> is_pressed then
                 let s1 = self\<lparr>long_press_triggered := True\<rparr>
                 in (case on_long_press s1 of
                       None \<Rightarrow> (None, s1)
                     | Some cb \<Rightarrow>
                         try_except (invoke cb Long_press_called s1)
                           (\<lambda>e. log_error ''Error in long press callback''))
               else (None, self)
          else (None, self))"

text \<open>
  The three entry points run on different threads. The model runs each of them as one
  step: \<open>Pressed\<close> and \<open>Released\<close> are the edge callbacks with the time they read,
  \<open>Monitor_poll now is_pressed\<close> is one iteration of the \<open>while self.running\<close> loop of
  \<open>_monitor_long_press\<close> with the time and the button level it reads. A run stops at the
  first step an exception leaves.
\<close>

datatype button_input = Pressed real | Released real | Monitor_poll real bool

fun step :: "button_input \<Rightarrow> button_handler \<Rightarrow> py_exc option \<times> button_handler" where
  "step (Pressed now) self = (None, on_button_pressed now self)"
| "step (Released now) self = on_button_released now self"
| "step (Monitor_poll now is_pressed) self =
     (if running self then monitor_iteration now is_pressed self else (None, self))"

fun run :: "button_input list \<Rightarrow> button_handler \<Rightarrow> py_exc option \<times> button_handler" where
  "run [] self = (None, self)"
| "run (i # inputs) self =
     (case step i self of
        (None, s') \<Rightarrow> run inputs s'
      | (Some e, s') \<Rightarrow> (Some e, s'))"

text \<open>
  One press-release cycle: the press edge, the monitor iterations that happen while the
  button is down, the release edge.
\<close>

definition poll_inputs :: "(real \<times> bool) list \<Rightarrow> button_input list" where
  "poll_inputs polls = map (\<lambda>(t, p). Monitor_poll t p) polls"

definition press_cycle :: "real \<Rightarrow> (real \<times> bool) list \<Rightarrow> real \<Rightarrow> button_input list" where
  "press_cycle t0 polls t1 = Pressed t0 # poll_inputs polls @ [Released t1]"

definition callbacks_fired :: "button_handler \<Rightarrow> handler_event list" where
  "callbacks_fired self = filter (\<lambda>e. e = Short_press_called \<or> e = Long_press_called) (events self)"

definition ButtonInputHandler :: "real \<Rightarrow> button_handler" where
  "ButtonInputHandler threshold =
     \<lparr>long_press_threshold = threshold, press_start_time = None, long_press_triggered = False,
      running = False, on_short_press = None, on_long_press = None, events = []\<rparr>"

definition start :: "button_handler \<Rightarrow> button_handler" where
  "start self = (if running self then self else self\<lparr>running := True\<rparr>)"

definition demo_handler :: button_handler where
  "demo_handler = start ((ButtonInputHandler 2.0)\<lparr>on_short_press := Some Returns, on_long_press := Some Returns\<rparr>)"

text \<open>
  The monitor thread polls every 100 ms; \<open>gap_polls\<close> are twenty polls at 0.05 s, 0.15 s,
  ..., 1.95 s after the press, each finding the button down.
\<close>

definition gap_polls :: "(real \<times> bool) list" where
  "gap_polls = map (\<lambda>k. (0.05 + 0.1 * real k, True)) [0..<20]"

section \<open>Touch polling thread (display/touch_handler.py)\<close>

text \<open>
  \<open>on_error = None\<close> stands for the default handler, which logs. \<open>th_gt_dev\<close> is the device
  state object handed to the constructor.
\<close>

record touch_handler =
  th_running :: bool
  th_flag :: int
  th_gt_dev :: touch_frame
  on_error :: "callback option"
  th_events :: "handler_event list"

definition TouchHandler :: "touch_frame \<Rightarrow> callback option \<Rightarrow> touch_handler" where
  "TouchHandler dev on_err =
     \<lparr>th_running = False, th_flag = 1, th_gt_dev = dev, on_error = on_err, th_events = []\<rparr>"

definition start_touch :: "touch_handler \<Rightarrow> touch_handler" where
  "start_touch self = (if th_running self then self else self\<lparr>th_running := True, th_flag := 1\<rparr>)"

text \<open>
  The body of the \<open>while\<close> loop of \<open>_irq_loop\<close>. \<open>pin_read\<close> is the outcome of
  \<open>self.gt.digital_read(self.gt.INT)\<close>: a level, or the exception it raises. The call
  \<open>self.on_error(e)\<close> stands in the \<open>except\<close> clause, outside any \<open>try\<close>.
\<close>

definition irq_iteration :: "py_exc + int \<Rightarrow> touch_handler \<Rightarrow> py_exc option \<times> touch_handler" where
  "irq_iteration pin_read self =
     (case pin_read of
        Inr level \<Rightarrow>
          (None, self\<lparr>th_gt_dev := (th_gt_dev self)\<lparr>Touch := (if level = 0 then 1 else 0)\<rparr>\<rparr>)
      | Inl e \<Rightarrow>
          (case on_error self of
             None \<Rightarrow>
               (None, self\<lparr>th_events := th_events self @ [Error_logged ''Touch detection error'']\<rparr>)
           | Some Returns \<Rightarrow>
               (None, self\<lparr>th_events := th_events self @ [Error_handler_called]\<rparr>)
           | Some (Raises e') \<Rightarrow>
               (Some e', self\<lparr>th_events := th_events self @ [Error_handler_called]\<rparr>)))"

text \<open>
  The loop over the pin readings of successive iterations. The thread is still \<open>Polling\<close>
  when the readings are used up, has \<open>Exited\<close> when the loop condition failed, and has
  \<open>Died\<close> when an exception left the loop.
\<close>

datatype thread_state = Polling | Exited | Died py_exc

fun irq_loop :: "(py_exc + int) list \<Rightarrow> touch_handler \<Rightarrow> thread_state \<times> touch_handler" where
  "irq_loop [] self =
     (if th_flag self = 1 \<and> th_running self then (Polling, self) else (Exited, self))"
| "irq_loop (pin_read # reads) self =
     (if th_flag self = 1 \<and> th_running self then
        (case irq_iteration pin_read self of
           (None, s') \<Rightarrow> irq_loop reads s'
         | (Some e, s') \<Rightarrow> (Died e, s'))
      else (Exited, self))"

section \<open>E-paper display driver, V3 (TP_lib/epd2in13_V3.py)\<close>

text \<open>
  The driver talks to the panel through \<open>RPi.GPIO\<close> and \<open>spidev\<close>. Every call that reaches
  one of them is recorded in \<open>hw_trace\<close>, together with the calls of \<open>time.sleep\<close> and the
  timeout warning of the log. Time is counted in milliseconds: \<open>clock\<close> is the reading of
  \<open>time.time()\<close>, it advances by the requested amount in \<open>time.sleep\<close> and not otherwise.
  \<open>busy_line t\<close> is the level of the BUSY pin at time \<open>t\<close>, the only pin the driver
  reads. \<open>spi\<close> tells whether the SPI handle is open. Failures of the GPIO and SPI calls
  themselves are not modelled.
\<close>

definition RST_PIN :: int where
  "RST_PIN = 17"



definition BUSY_PIN :: int where
  "BUSY_PIN = 24"

datatype hw_op =
    GPIO_output int int
  | GPIO_input int
  | SPI_writebytes "int list"
  | Sleep nat
  | Log_warning string

text \<open>Values a Python function can return, as far as the driver is concerned.\<close>

datatype py_value = PyNone | PyBool bool | PyInt int

record epd =
  epd_mock_mode :: bool
  spi :: bool
  width :: int
  height :: int
  clock :: nat
  busy_line :: "nat \<Rightarrow> int"
  hw_trace :: "hw_op list"

text \<open>The driver as \<open>__init__\<close> leaves it: 122 by 250 pixels, SPI open unless in mock mode.\<close>

definition EPD :: "bool \<Rightarrow> (nat \<Rightarrow> int) \<Rightarrow> epd" where
  "EPD mock line =
     \<lparr>epd_mock_mode = mock, spi = \<not> mock, width = 122, height = 250, clock = 0,
      busy_line = line, hw_trace = []\<rparr>"

definition time_sleep :: "nat \<Rightarrow> epd \<Rightarrow> epd" where
  "time_sleep ms self = self\<lparr>clock := clock self + ms, hw_trace := hw_trace self @ [Sleep ms]\<rparr>"


definition digital_read :: "int \<Rightarrow> epd \<Rightarrow> int \<times> epd" where
  "digital_read pin self =
     (if epd_mock_mode self then (0, self)
      else (busy_line self (clock self), self\<lparr>hw_trace := hw_trace self @ [GPIO_input pin]\<rparr>))"





text \<open>
  The \<open>while\<close> loop of \<open>_wait_until_idle\<close>, entered in hardware mode with
  \<open>timeout = time.time() + 10\<close>. It terminates because each iteration sleeps 10 ms and
  leaves once the clock has passed the timeout.
\<close>

function wait_loop :: "nat \<Rightarrow> epd \<Rightarrow> epd" where
  "wait_loop timeout self =
     (if fst (digital_read BUSY_PIN self) = 1 then
        let s1 = time_sleep 10 (snd (digital_read BUSY_PIN self))
        in if clock s1 > timeout then
             s1\<lparr>hw_trace := hw_trace s1 @ [Log_warning ''Display busy timeout!'']\<rparr>
           else wait_loop timeout s1
      else snd (digital_read BUSY_PIN self))"
  by pat_completeness auto
termination
  by (relation "measure (\<lambda>(timeout, self). Suc timeout - clock self)")
     (auto simp: time_sleep_def digital_read_def split: if_splits)

declare wait_loop.simps [simp del]

text \<open>
  \<open>_wait_until_idle\<close> has no parameter and no \<open>return\<close> with a value: it returns \<open>None\<close>
  on every path.
\<close>

definition wait_until_idle :: "epd \<Rightarrow> py_value \<times> epd" where
  "wait_until_idle self =
     (if epd_mock_mode self then (PyNone, time_sleep 10 self)
      else
        let timeout = clock self + 10000;
            s1 = wait_loop timeout self
        in (PyNone, time_sleep 10 s1))"






definition poll_busy :: "hw_op list" where
  "poll_busy = [GPIO_input BUSY_PIN, Sleep 10]"

section \<open>E-paper display driver, V4 (TP_lib/epd2in13_V4.py)\<close>

text \<open>
  The V4 driver goes through the module \<open>epdconfig\<close>, which is not among the sources. Its
  functions are the transport: each call is recorded in \<open>cfg_trace\<close>; the pin numbers are
  parameters; \<open>digital_read(busy_pin)\<close> returns the level \<open>busy_line_V4\<close> has at the
  current time, and \<open>delay_ms\<close> advances the clock.
\<close>

datatype cfg_op =
    Digital_write int int
  | Digital_read int
  | Delay_ms nat
  | Spi_writebyte "int list"
  | Spi_writebyte2 "int list"

record epd_V4 =
  reset_pin :: int
  dc_pin :: int
  busy_pin :: int
  cs_pin :: int
  width_V4 :: int
  height_V4 :: int
  clock_V4 :: nat
  busy_line_V4 :: "nat \<Rightarrow> int"
  cfg_trace :: "cfg_op list"

definition EPD_V4 :: "int \<Rightarrow> int \<Rightarrow> int \<Rightarrow> int \<Rightarrow> (nat \<Rightarrow> int) \<Rightarrow> epd_V4" where
  "EPD_V4 rst dc busy cs line =
     \<lparr>reset_pin = rst, dc_pin = dc, busy_pin = busy, cs_pin = cs, width_V4 = 122,
      height_V4 = 250, clock_V4 = 0, busy_line_V4 = line, cfg_trace = []\<rparr>"

definition cfg_call :: "cfg_op \<Rightarrow> epd_V4 \<Rightarrow> epd_V4" where
  "cfg_call op self = self\<lparr>cfg_trace := cfg_trace self @ [op]\<rparr>"

definition delay_ms :: "nat \<Rightarrow> epd_V4 \<Rightarrow> epd_V4" where
  "delay_ms ms self = (cfg_call (Delay_ms ms) self)\<lparr>clock_V4 := clock_V4 self + ms\<rparr>"




text \<open>
  \<open>ReadBusy\<close> polls without a timeout; a call that never returns has the value \<open>None\<close>.
\<close>

partial_function (option) ReadBusy :: "epd_V4 \<Rightarrow> epd_V4 option" where
  "ReadBusy self =
     (if busy_line_V4 self (clock_V4 self) = 1 then
        ReadBusy (delay_ms 10 (cfg_call (Digital_read (busy_pin self)) self))
      else Some (cfg_call (Digital_read (busy_pin self)) self))"



definition linewidth_V4 :: "epd_V4 \<Rightarrow> int" where
  "linewidth_V4 self =
     (if width_V4 self mod 8 = 0 then int_truediv (width_V4 self) 8
      else int_truediv (width_V4 self) 8 + 1)"


text \<open>
  The image library (PIL) is a parameter as well; each of its operations may raise.
\<close>

record pil_image =
  im_size :: "int \<times> int"
  im_data :: "int list"

record pil =
  convert_1 :: "pil_image \<Rightarrow> py_exc + pil_image"
  rotate_90_expand :: "pil_image \<Rightarrow> py_exc + pil_image"
  tobytes_raw :: "pil_image \<Rightarrow> py_exc + int list"

definition getbuffer_V4 :: "pil \<Rightarrow> epd_V4 \<Rightarrow> pil_image \<Rightarrow> py_exc + int list" where
  "getbuffer_V4 lib self img =
     (case im_size img of (imwidth, imheight) \<Rightarrow>
        if imwidth = width_V4 self \<and> imheight = height_V4 self then
          (case convert_1 lib img of Inl e \<Rightarrow> Inl e | Inr img1 \<Rightarrow> tobytes_raw lib img1)
        else if imwidth = height_V4 self \<and> imheight = width_V4 self then
          (case rotate_90_expand lib img of Inl e \<Rightarrow> Inl e | Inr img1 \<Rightarrow>
           case convert_1 lib img1 of Inl e \<Rightarrow> Inl e | Inr img2 \<Rightarrow> tobytes_raw lib img2)
        else Inr (replicate (nat (int_truediv (width_V4 self) 8 * height_V4 self)) 0x00))"




definition poll_busy_V4 :: "epd_V4 \<Rightarrow> cfg_op list" where
  "poll_busy_V4 self = [Digital_read (busy_pin self), Delay_ms 10]"


subsection \<open>Concrete panels used in the examples\<close>

text \<open>
  Panels that are idle at once, busy for the first 30 ms, and busy forever; a driver in
  mock mode; a PIL whose every operation raises, and a 100 by 100 image.
\<close>

definition idle_panel :: epd where
  "idle_panel = EPD False (\<lambda>t. 0)"

definition slow_panel :: epd where
  "slow_panel = EPD False (\<lambda>t. if t < 30 then 1 else 0)"

definition stuck_panel :: epd where
  "stuck_panel = EPD False (\<lambda>t. 1)"

definition mock_panel :: epd where
  "mock_panel = EPD True (\<lambda>t. 0)"

definition idle_panel_V4 :: epd_V4 where
  "idle_panel_V4 = EPD_V4 17 25 24 8 (\<lambda>t. 0)"

definition stuck_panel_V4 :: epd_V4 where
  "stuck_panel_V4 = EPD_V4 17 25 24 8 (\<lambda>t. 1)"

definition failing_pil :: pil where
  "failing_pil =
     \<lparr>convert_1 = (\<lambda>img. Inl IOError), rotate_90_expand = (\<lambda>img. Inl IOError),
      tobytes_raw = (\<lambda>img. Inl IOError)\<rparr>"

definition square_image :: pil_image where
  "square_image = \<lparr>im_size = (100, 100), im_data = replicate 1300 0xFF\<rparr>"

section \<open>Verification\<close>

subsection \<open>Coordinate remapping\<close>

lemma int_truediv_mono:
  assumes "a \<le> b" and "0 < c"
  shows "int_truediv a c \<le> int_truediv b c"
proof (cases "0 \<le> a")
  case True
  with assms show ?thesis
    by (simp add: int_truediv_def zdiv_mono1)
next
  case False
  note neg_a = this
  show ?thesis
  proof (cases "0 \<le> b")
    case True
    have "0 \<le> (- a) div c" using neg_a assms(2) by (simp add: pos_imp_zdiv_nonneg_iff)
    moreover have "0 \<le> b div c" using True assms(2) by (simp add: pos_imp_zdiv_nonneg_iff)
    ultimately show ?thesis using neg_a True by (simp add: int_truediv_def)
  next
    case False
    have "(- b) div c \<le> (- a) div c" using assms by (simp add: zdiv_mono1)
    then show ?thesis using neg_a False by (simp add: int_truediv_def)
  qed
qed

text \<open>
  Claim C3. For raw coordinates in \<open>[0, 1024)\<close> the remapping is the integer quotient
  \<open>raw * MAX div 1024\<close>, it lands inside \<open>[0, X_MAX)\<close> resp. \<open>[0, Y_MAX)\<close>, and both
  remapping functions are non-decreasing (for all integer arguments).
\<close>

theorem map_xy_range_mono:
  assumes "0 \<le> rx" "rx < 1024" "0 \<le> ry" "ry < 1024"
  shows "map_x rx = rx * X_MAX div 1024 \<and> map_y ry = ry * Y_MAX div 1024
       \<and> 0 \<le> map_x rx \<and> map_x rx < X_MAX \<and> 0 \<le> map_y ry \<and> map_y ry < Y_MAX
       \<and> (\<forall>a b. a \<le> b \<longrightarrow> map_x a \<le> map_x b)
       \<and> (\<forall>a b. a \<le> b \<longrightarrow> map_y a \<le> map_y b)"
proof -
  have x_eq: "map_x rx = rx * X_MAX div 1024"
    using assms(1) by (simp add: map_x_def int_truediv_def X_MAX_def)
  have y_eq: "map_y ry = ry * Y_MAX div 1024"
    using assms(3) by (simp add: map_y_def int_truediv_def Y_MAX_def)
  have x_lo: "0 \<le> map_x rx"
    using assms(1) by (simp add: x_eq X_MAX_def pos_imp_zdiv_nonneg_iff)
  have y_lo: "0 \<le> map_y ry"
    using assms(3) by (simp add: y_eq Y_MAX_def pos_imp_zdiv_nonneg_iff)
  have x_hi: "map_x rx < X_MAX"
    using assms(1,2) by (simp add: x_eq X_MAX_def)
  have y_hi: "map_y ry < Y_MAX"
    using assms(3,4) by (simp add: y_eq Y_MAX_def)
  have x_mono: "\<forall>a b. a \<le> b \<longrightarrow> map_x a \<le> map_x b"
    by (simp add: map_x_def X_MAX_def int_truediv_mono)
  have y_mono: "\<forall>a b. a \<le> b \<longrightarrow> map_y a \<le> map_y b"
    by (simp add: map_y_def Y_MAX_def int_truediv_mono)
  from x_eq y_eq x_lo x_hi y_lo y_hi x_mono y_mono show ?thesis by blast
qed

theorem map_xy_range_mono_witness:
  "map_x 1023 = 249 \<and> map_y 1023 = 121 \<and> map_x 0 = 0 \<and> map_y 0 = 0
   \<and> map_x 512 \<le> map_x 1023 \<and> map_y 512 \<le> map_y 1023"
proof -
  have top: "map_x 1023 = 1023 * X_MAX div 1024 \<and> map_y 1023 = 1023 * Y_MAX div 1024
       \<and> 0 \<le> map_x 1023 \<and> map_x 1023 < X_MAX \<and> 0 \<le> map_y 1023 \<and> map_y 1023 < Y_MAX
       \<and> (\<forall>a b. a \<le> b \<longrightarrow> map_x a \<le> map_x b)
       \<and> (\<forall>a b. a \<le> b \<longrightarrow> map_y a \<le> map_y b)"
    by (rule map_xy_range_mono) simp_all
  have bot: "map_x 0 = 0 * X_MAX div 1024 \<and> map_y 0 = 0 * Y_MAX div 1024"
    using map_xy_range_mono [of 0 0] by simp
  from top have mx: "\<forall>a b. a \<le> b \<longrightarrow> map_x a \<le> map_x b"
    and my: "\<forall>a b. a \<le> b \<longrightarrow> map_y a \<le> map_y b"
    by blast+
  have "map_x 512 \<le> map_x 1023" using mx [rule_format, of 512 1023] by simp
  moreover have "map_y 512 \<le> map_y 1023" using my [rule_format, of 512 1023] by simp
  ultimately show ?thesis using top bot by (simp add: X_MAX_def Y_MAX_def)
qed

subsection \<open>Decoding the touch report\<close>

lemma parse_point_ok:
  assumes "8 * i + 4 < length pd" "i < length (X dev)" "i < length (Y dev)"
  shows "parse_point pd i dev =
           (None, dev\<lparr>X := (X dev)[i := map_x (pd ! (i * 8 + 1) OR push_bit 8 (pd ! (i * 8 + 2)))],
                       Y := (Y dev)[i := map_y (pd ! (i * 8 + 3) OR push_bit 8 (pd ! (i * 8 + 4)))]\<rparr>)"
  using assms by (simp add: parse_point_def get_item_def set_item_def Let_def mult.commute)

lemma parse_points_ok:
  assumes "8 * (i + n) \<le> length pd" "i + n \<le> length (X dev)" "i + n \<le> length (Y dev)"
  shows "\<exists>dev'. parse_points pd i n dev = (None, dev')
           \<and> Touch dev' = Touch dev \<and> S dev' = S dev
           \<and> length (X dev') = length (X dev) \<and> length (Y dev') = length (Y dev)
           \<and> (\<forall>j. X dev' ! j = (if i \<le> j \<and> j < i + n
                     then map_x (pd ! (j * 8 + 1) OR push_bit 8 (pd ! (j * 8 + 2)))
                     else X dev ! j))
           \<and> (\<forall>j. Y dev' ! j = (if i \<le> j \<and> j < i + n
                     then map_y (pd ! (j * 8 + 3) OR push_bit 8 (pd ! (j * 8 + 4)))
                     else Y dev ! j))"
  using assms
proof (induction n arbitrary: i dev)
  case 0
  then show ?case by simp
next
  case (Suc n)
  let ?d = "dev\<lparr>X := (X dev)[i := map_x (pd ! (i * 8 + 1) OR push_bit 8 (pd ! (i * 8 + 2)))],
                  Y := (Y dev)[i := map_y (pd ! (i * 8 + 3) OR push_bit 8 (pd ! (i * 8 + 4)))]\<rparr>"
  have step: "parse_point pd i dev = (None, ?d)"
    using Suc.prems by (intro parse_point_ok) simp_all
  have "\<exists>dev'. parse_points pd (Suc i) n ?d = (None, dev')
           \<and> Touch dev' = Touch ?d \<and> S dev' = S ?d
           \<and> length (X dev') = length (X ?d) \<and> length (Y dev') = length (Y ?d)
           \<and> (\<forall>j. X dev' ! j = (if Suc i \<le> j \<and> j < Suc i + n
                     then map_x (pd ! (j * 8 + 1) OR push_bit 8 (pd ! (j * 8 + 2)))
                     else X ?d ! j))
           \<and> (\<forall>j. Y dev' ! j = (if Suc i \<le> j \<and> j < Suc i + n
                     then map_y (pd ! (j * 8 + 3) OR push_bit 8 (pd ! (j * 8 + 4)))
                     else Y ?d ! j))"
    using Suc.prems by (intro Suc.IH) simp_all
  then obtain dev' where rest: "parse_points pd (Suc i) n ?d = (None, dev')"
    and keep: "Touch dev' = Touch ?d" "S dev' = S ?d"
       "length (X dev') = length (X ?d)" "length (Y dev') = length (Y ?d)"
    and xs: "\<forall>j. X dev' ! j = (if Suc i \<le> j \<and> j < Suc i + n
                     then map_x (pd ! (j * 8 + 1) OR push_bit 8 (pd ! (j * 8 + 2)))
                     else X ?d ! j)"
    and ys: "\<forall>j. Y dev' ! j = (if Suc i \<le> j \<and> j < Suc i + n
                     then map_y (pd ! (j * 8 + 3) OR push_bit 8 (pd ! (j * 8 + 4)))
                     else Y ?d ! j)"
    by blast
  have run: "parse_points pd i (Suc n) dev = (None, dev')"
    using step rest by simp
  have xs': "\<forall>j. X dev' ! j = (if i \<le> j \<and> j < i + Suc n
                     then map_x (pd ! (j * 8 + 1) OR push_bit 8 (pd ! (j * 8 + 2)))
                     else X dev ! j)"
  proof
    fix j
    show "X dev' ! j = (if i \<le> j \<and> j < i + Suc n
                     then map_x (pd ! (j * 8 + 1) OR push_bit 8 (pd ! (j * 8 + 2)))
                     else X dev ! j)"
      using xs [rule_format, of j] Suc.prems(2)
      by (cases "j = i") (auto simp: nth_list_update)
  qed
  have ys': "\<forall>j. Y dev' ! j = (if i \<le> j \<and> j < i + Suc n
                     then map_y (pd ! (j * 8 + 3) OR push_bit 8 (pd ! (j * 8 + 4)))
                     else Y dev ! j)"
  proof
    fix j
    show "Y dev' ! j = (if i \<le> j \<and> j < i + Suc n
                     then map_y (pd ! (j * 8 + 3) OR push_bit 8 (pd ! (j * 8 + 4)))
                     else Y dev ! j)"
      using ys [rule_format, of j] Suc.prems(3)
      by (cases "j = i") (auto simp: nth_list_update)
  qed
  from run keep xs' ys' show ?case by simp
qed

lemma read_touch_gt_old: "gt_old (snd (read_touch s)) = gt_old s"
  by (auto simp: read_touch_def read_reg_def write_reg_def Let_def
           split: option.splits list.splits prod.splits if_splits)

lemma read_touch_scan_dir: "scan_dir (snd (read_touch s)) = scan_dir s"
  by (auto simp: read_touch_def read_reg_def write_reg_def Let_def
           split: option.splits list.splits prod.splits if_splits)

lemma read_point_info:
  assumes "\<not> mock_mode self" "bus self = Some b"
  shows "read_reg self POINT_INFO 1 =
           (read_block b 0x81 0x4E 1, self\<lparr>bus_log := bus_log self @ [Reg_read 0x81 0x4E 1]\<rparr>)"
  using assms by (simp add: read_reg_def POINT_INFO_def)

lemma read_point1:
  assumes "\<not> mock_mode self" "bus self = Some b"
  shows "read_reg self POINT1_REG n =
           (read_block b 0x81 0x4F n, self\<lparr>bus_log := bus_log self @ [Reg_read 0x81 0x4F n]\<rparr>)"
  using assms by (simp add: read_reg_def POINT1_REG_def)

lemma write_point_info:
  assumes "\<not> mock_mode self" "bus self = Some b"
  shows "snd (write_reg self POINT_INFO [0]) =
           self\<lparr>bus_log := bus_log self @ [Reg_write 0x81 [0x4E, 0]]\<rparr>"
  using assms by (simp add: write_reg_def POINT_INFO_def Let_def)

text \<open>
  Claim C2. On a driver in hardware mode whose point-info read delivers the byte \<open>info\<close>,
  the touch count is the low nibble \<open>info AND 0x0F\<close>. If it is outside \<open>1..5\<close> the call
  returns 0, stores 0 and the only bus access is the one-byte point-info read. If it is
  inside \<open>1..5\<close> the next bus access reads \<open>count * 8\<close> bytes at the first touch-point
  register, and when the controller delivers them, every touch index \<open>i < count\<close> is
  decoded from the bytes at offsets \<open>i*8+1 .. i*8+4\<close> as two little-endian 16-bit values,
  remapped and stored; the point-info register is then cleared.
\<close>

theorem read_touch_decode:
  assumes hw: "\<not> mock_mode self" "bus self = Some b"
    and info: "read_block b 0x81 0x4E 1 = Some (info # rest)"
  shows "(\<not> (1 \<le> info AND 0x0F \<and> info AND 0x0F \<le> 5) \<longrightarrow>
            fst (read_touch self) = 0
          \<and> Touch (gt_dev (snd (read_touch self))) = 0
          \<and> bus_log (snd (read_touch self)) = bus_log self @ [Reg_read 0x81 0x4E 1])
       \<and> (1 \<le> info AND 0x0F \<and> info AND 0x0F \<le> 5 \<longrightarrow>
            take (length (bus_log self) + 2) (bus_log (snd (read_touch self))) =
              bus_log self @ [Reg_read 0x81 0x4E 1, Reg_read 0x81 0x4F ((info AND 0x0F) * 8)])
       \<and> (1 \<le> info AND 0x0F \<and> info AND 0x0F \<le> 5
          \<and> read_block b 0x81 0x4F ((info AND 0x0F) * 8) = Some point_data
          \<and> length point_data = nat ((info AND 0x0F) * 8)
          \<and> 5 \<le> length (X (gt_dev self)) \<and> 5 \<le> length (Y (gt_dev self)) \<longrightarrow>
            fst (read_touch self) = info AND 0x0F
          \<and> Touch (gt_dev (snd (read_touch self))) = info AND 0x0F
          \<and> (\<forall>i < nat (info AND 0x0F).
                X (gt_dev (snd (read_touch self))) ! i =
                  map_x (point_data ! (i * 8 + 1) OR push_bit 8 (point_data ! (i * 8 + 2)))
              \<and> Y (gt_dev (snd (read_touch self))) ! i =
                  map_y (point_data ! (i * 8 + 3) OR push_bit 8 (point_data ! (i * 8 + 4))))
          \<and> bus_log (snd (read_touch self)) =
              bus_log self @ [Reg_read 0x81 0x4E 1, Reg_read 0x81 0x4F ((info AND 0x0F) * 8),
                              Reg_write 0x81 [0x4E, 0]])"
proof -
  let ?c = "info AND 0x0F"
  let ?s1 = "self\<lparr>bus_log := bus_log self @ [Reg_read 0x81 0x4E 1]\<rparr>"
  let ?s2 = "?s1\<lparr>bus_log := bus_log ?s1 @ [Reg_read 0x81 0x4F (?c * 8)]\<rparr>"
  have r1: "read_reg self POINT_INFO 1 = (Some (info # rest), ?s1)"
    using read_point_info [OF hw] info by simp
  have hw1: "\<not> mock_mode ?s1" "bus ?s1 = Some b"
    using hw by simp_all
  have r2: "read_reg ?s1 POINT1_REG (?c * 8) = (read_block b 0x81 0x4F (?c * 8), ?s2)"
    using read_point1 [OF hw1] by simp
  have out_of_range: "fst (read_touch self) = 0
          \<and> Touch (gt_dev (snd (read_touch self))) = 0
          \<and> bus_log (snd (read_touch self)) = bus_log self @ [Reg_read 0x81 0x4E 1]"
    if "\<not> (1 \<le> ?c \<and> ?c \<le> 5)"
  proof -
    from that have cond: "(0 < ?c \<and> ?c \<le> 5) = False" by auto
    show ?thesis
      using hw(1) by (simp add: read_touch_def r1 Let_def cond)
  qed
  have in_range: "take (length (bus_log self) + 2) (bus_log (snd (read_touch self))) =
              bus_log self @ [Reg_read 0x81 0x4E 1, Reg_read 0x81 0x4F (?c * 8)]"
    if "1 \<le> ?c \<and> ?c \<le> 5"
  proof -
    from that have c: "0 < ?c \<and> ?c \<le> 5" by linarith
    show ?thesis
    proof (cases "read_block b 0x81 0x4F (?c * 8)")
      case None
      then show ?thesis
        using hw(1) c by (simp add: read_touch_def r1 r2 Let_def)
    next
      case (Some pd)
      show ?thesis
      proof (cases pd)
        case Nil
        then show ?thesis
          using hw(1) c Some by (simp add: read_touch_def r1 r2 Let_def)
      next
        case (Cons d ds)
        let ?dev = "(gt_dev ?s2)\<lparr>Touch := ?c\<rparr>"
        obtain exn dev' where pp: "parse_points (d # ds) 0 (nat ?c) ?dev = (exn, dev')"
          by (cases "parse_points (d # ds) 0 (nat ?c) ?dev") blast
        have hw2: "\<not> mock_mode (?s2\<lparr>gt_dev := dev'\<rparr>)" "bus (?s2\<lparr>gt_dev := dev'\<rparr>) = Some b"
          using hw by simp_all
        show ?thesis
        proof (cases exn)
          case None
          then show ?thesis
            using hw(1) c Some Cons pp write_point_info [OF hw2]
            by (simp add: read_touch_def r1 r2 Let_def)
        next
          case (Some e)
          then show ?thesis
            using hw(1) c \<open>read_block b 0x81 0x4F (?c * 8) = Some pd\<close> Cons pp
            by (simp add: read_touch_def r1 r2 Let_def)
        qed
      qed
    qed
  qed
  have decoded: "fst (read_touch self) = ?c
          \<and> Touch (gt_dev (snd (read_touch self))) = ?c
          \<and> (\<forall>i < nat ?c.
                X (gt_dev (snd (read_touch self))) ! i =
                  map_x (point_data ! (i * 8 + 1) OR push_bit 8 (point_data ! (i * 8 + 2)))
              \<and> Y (gt_dev (snd (read_touch self))) ! i =
                  map_y (point_data ! (i * 8 + 3) OR push_bit 8 (point_data ! (i * 8 + 4))))
          \<and> bus_log (snd (read_touch self)) =
              bus_log self @ [Reg_read 0x81 0x4E 1, Reg_read 0x81 0x4F (?c * 8),
                              Reg_write 0x81 [0x4E, 0]]"
    if rng: "1 \<le> ?c \<and> ?c \<le> 5"
      and data: "read_block b 0x81 0x4F (?c * 8) = Some point_data"
      and len: "length point_data = nat (?c * 8)"
      and xs: "5 \<le> length (X (gt_dev self))" and ys: "5 \<le> length (Y (gt_dev self))"
  proof -
    from rng have c: "0 < ?c \<and> ?c \<le> 5" by linarith
    let ?dev = "(gt_dev ?s2)\<lparr>Touch := ?c\<rparr>"
    from c len obtain d ds where pd: "point_data = d # ds"
      by (cases point_data) auto
    have len8: "8 * (0 + nat ?c) \<le> length point_data"
      using c len by (simp add: nat_mult_distrib)
    have "0 + nat ?c \<le> length (X ?dev)" "0 + nat ?c \<le> length (Y ?dev)"
      using c xs ys by auto
    from parse_points_ok [OF len8 this]
    obtain dev' where pp: "parse_points point_data 0 (nat ?c) ?dev = (None, dev')"
      and t: "Touch dev' = Touch ?dev"
      and px: "\<forall>j. X dev' ! j = (if 0 \<le> j \<and> j < 0 + nat ?c
                 then map_x (point_data ! (j * 8 + 1) OR push_bit 8 (point_data ! (j * 8 + 2)))
                 else X ?dev ! j)"
      and py: "\<forall>j. Y dev' ! j = (if 0 \<le> j \<and> j < 0 + nat ?c
                 then map_y (point_data ! (j * 8 + 3) OR push_bit 8 (point_data ! (j * 8 + 4)))
                 else Y ?dev ! j)"
      by blast
    have hw2: "\<not> mock_mode (?s2\<lparr>gt_dev := dev'\<rparr>)" "bus (?s2\<lparr>gt_dev := dev'\<rparr>) = Some b"
      using hw by simp_all
    have res: "read_touch self =
                 (?c, ?s2\<lparr>gt_dev := dev',
                          bus_log := bus_log ?s2 @ [Reg_write 0x81 [0x4E, 0]]\<rparr>)"
      using hw(1) c data pd pp write_point_info [OF hw2]
      by (simp add: read_touch_def r1 r2 Let_def)
    show ?thesis
      using t px py by (simp add: res)
  qed
  from out_of_range in_range decoded show ?thesis by blast
qed

lemma replicate_5: "replicate 5 x = [x, x, x, x, x]"
  by (simp add: eval_nat_numeral)

theorem read_touch_decode_witness:
  "fst (read_touch (init_hardware two_finger_bus)) = 2
   \<and> X (gt_dev (snd (read_touch (init_hardware two_finger_bus)))) ! 0 = 125
   \<and> Y (gt_dev (snd (read_touch (init_hardware two_finger_bus)))) ! 0 = 121
   \<and> X (gt_dev (snd (read_touch (init_hardware two_finger_bus)))) ! 1 = 3
   \<and> Y (gt_dev (snd (read_touch (init_hardware two_finger_bus)))) ! 1 = 7
   \<and> bus_log (snd (read_touch (init_hardware two_finger_bus))) =
        [Reg_read 0x81 0x4E 1, Reg_read 0x81 0x4F 16, Reg_write 0x81 [0x4E, 0]]
   \<and> fst (read_touch (init_hardware nibble6_bus)) = 0
   \<and> Touch (gt_dev (snd (read_touch (init_hardware nibble6_bus)))) = 0
   \<and> bus_log (snd (read_touch (init_hardware nibble6_bus))) = [Reg_read 0x81 0x4E 1]"
proof -
  let ?s = "init_hardware two_finger_bus"
  have hw: "\<not> mock_mode ?s" "bus ?s = Some two_finger_bus"
    by (simp_all add: init_hardware_def)
  have info: "read_block two_finger_bus 0x81 0x4E 1 = Some (0x82 # [])"
    by (simp add: two_finger_bus_def)
  have pre: "1 \<le> (0x82::int) AND 0x0F \<and> (0x82::int) AND 0x0F \<le> 5
      \<and> read_block two_finger_bus 0x81 0x4F (((0x82::int) AND 0x0F) * 8) = Some two_finger_data
      \<and> length two_finger_data = nat (((0x82::int) AND 0x0F) * 8)
      \<and> 5 \<le> length (X (gt_dev ?s)) \<and> 5 \<le> length (Y (gt_dev ?s))"
    by (simp add: two_finger_bus_def two_finger_data_def init_hardware_def GT_Development_def)
  have two: "fst (read_touch ?s) = 2
      \<and> (\<forall>i < 2. X (gt_dev (snd (read_touch ?s))) ! i =
                  map_x (two_finger_data ! (i * 8 + 1) OR push_bit 8 (two_finger_data ! (i * 8 + 2)))
              \<and> Y (gt_dev (snd (read_touch ?s))) ! i =
                  map_y (two_finger_data ! (i * 8 + 3) OR push_bit 8 (two_finger_data ! (i * 8 + 4))))
      \<and> bus_log (snd (read_touch ?s)) =
           bus_log ?s @ [Reg_read 0x81 0x4E 1, Reg_read 0x81 0x4F 16, Reg_write 0x81 [0x4E, 0]]"
    using read_touch_decode [OF hw info, of two_finger_data] pre by simp
  then have pts: "\<forall>i < 2. X (gt_dev (snd (read_touch ?s))) ! i =
                  map_x (two_finger_data ! (i * 8 + 1) OR push_bit 8 (two_finger_data ! (i * 8 + 2)))
              \<and> Y (gt_dev (snd (read_touch ?s))) ! i =
                  map_y (two_finger_data ! (i * 8 + 3) OR push_bit 8 (two_finger_data ! (i * 8 + 4)))"
    by blast
  have p0: "X (gt_dev (snd (read_touch ?s))) ! 0 = 125 \<and> Y (gt_dev (snd (read_touch ?s))) ! 0 = 121"
    using pts [rule_format, of 0]
    by (simp add: two_finger_data_def map_x_def map_y_def int_truediv_def X_MAX_def Y_MAX_def)
  have p1: "X (gt_dev (snd (read_touch ?s))) ! 1 = 3 \<and> Y (gt_dev (snd (read_touch ?s))) ! 1 = 7"
    using pts [rule_format, of 1]
    by (simp add: two_finger_data_def map_x_def map_y_def int_truediv_def X_MAX_def Y_MAX_def)
  let ?t = "init_hardware nibble6_bus"
  have hw6: "\<not> mock_mode ?t" "bus ?t = Some nibble6_bus"
    by (simp_all add: init_hardware_def)
  have info6: "read_block nibble6_bus 0x81 0x4E 1 = Some (0x86 # [])"
    by (simp add: nibble6_bus_def)
  have six: "fst (read_touch ?t) = 0 \<and> Touch (gt_dev (snd (read_touch ?t))) = 0
      \<and> bus_log (snd (read_touch ?t)) = bus_log ?t @ [Reg_read 0x81 0x4E 1]"
    using read_touch_decode [OF hw6 info6, of "[]"] by simp
  from two p0 p1 six show ?thesis
    by (simp add: init_hardware_def)
qed

subsection \<open>Return value and stored touch count\<close>

lemma read_touch_info_failed:
  assumes "\<not> mock_mode self" "bus self = Some b" "read_block b 0x81 0x4E 1 = None"
  shows "read_touch self = (0, self\<lparr>bus_log := bus_log self @ [Reg_read 0x81 0x4E 1]\<rparr>)"
  using assms read_point_info [OF assms(1,2)] by (simp add: read_touch_def)

lemma two_finger_frame_reachable:
  "gt_dev (snd (read_touch (init_hardware two_finger_bus))) = two_finger_frame"
  by code_simp

lemma parse_point_Touch: "Touch (snd (parse_point pd i dev)) = Touch dev"
  by (simp add: parse_point_def Let_def split: sum.splits)

lemma parse_points_Touch: "Touch (snd (parse_points pd i n dev)) = Touch dev"
proof (induction n arbitrary: i dev)
  case 0
  then show ?case by simp
next
  case (Suc n)
  show ?case
  proof (cases "parse_point pd i dev")
    case (Pair exn dev')
    then have "Touch dev' = Touch dev"
      using parse_point_Touch [of pd i dev] by simp
    then show ?thesis
      using Pair Suc.IH [of "Suc i" dev'] by (cases exn) simp_all
  qed
qed

lemma write_reg_gt_dev: "gt_dev (snd (write_reg self reg data)) = gt_dev self"
  by (simp add: write_reg_def Let_def split: option.splits)

lemma read_touch_count_stored:
  assumes "mock_mode self \<or> bus self = None
           \<or> (\<exists>b info rest. bus self = Some b \<and> read_block b 0x81 0x4E 1 = Some (info # rest))"
  shows "fst (read_touch self) = Touch (gt_dev (snd (read_touch self)))
       \<and> 0 \<le> fst (read_touch self) \<and> fst (read_touch self) \<le> 5"
proof (cases "mock_mode self")
  case True
  then show ?thesis by (simp add: read_touch_def)
next
  case False
  note hw = this
  obtain info rest s1 where r1: "read_reg self POINT_INFO 1 = (Some (info # rest), s1)"
  proof (cases "bus self")
    case None
    then have "read_reg self POINT_INFO 1 = (Some (0 # []), self)"
      by (simp add: read_reg_def)
    then show ?thesis using that by blast
  next
    case (Some b)
    with assms hw obtain info rest where "read_block b 0x81 0x4E 1 = Some (info # rest)"
      by auto
    then have "read_reg self POINT_INFO 1 =
        (Some (info # rest), self\<lparr>bus_log := bus_log self @ [Reg_read 0x81 0x4E 1]\<rparr>)"
      using hw Some by (simp add: read_reg_def POINT_INFO_def)
    then show ?thesis using that by blast
  qed
  let ?c = "info AND 0x0F"
  show ?thesis
  proof (cases "0 < ?c \<and> ?c \<le> 5")
    case False
    then have cond: "(0 < ?c \<and> ?c \<le> 5) = False" by simp
    show ?thesis
      using hw by (simp add: read_touch_def r1 Let_def cond)
  next
    case True
    obtain pd s2 where r2: "read_reg s1 POINT1_REG (?c * 8) = (pd, s2)"
      by (cases "read_reg s1 POINT1_REG (?c * 8)")
    show ?thesis
    proof (cases pd)
      case None
      then show ?thesis
        using hw True by (simp add: read_touch_def r1 r2 Let_def)
    next
      case (Some bytes)
      show ?thesis
      proof (cases bytes)
        case Nil
        then show ?thesis
          using hw True Some by (simp add: read_touch_def r1 r2 Let_def)
      next
        case (Cons d ds)
        let ?dev = "(gt_dev s2)\<lparr>Touch := ?c\<rparr>"
        obtain exn dev' where pp: "parse_points (d # ds) 0 (nat ?c) ?dev = (exn, dev')"
          by (cases "parse_points (d # ds) 0 (nat ?c) ?dev")
        have "Touch dev' = ?c"
          using parse_points_Touch [of "d # ds" 0 "nat ?c" ?dev] pp by simp
        then show ?thesis
          using hw True Some Cons pp
          by (cases exn) (simp_all add: read_touch_def r1 r2 Let_def write_reg_gt_dev)
      qed
    qed
  qed
qed

text \<open>
  Claim C9. The claim says that the value returned by \<open>read_touch\<close> always equals the
  stored count \<open>gt_dev.Touch\<close> afterwards, also after a failed point-info read. Every
  other path stores what it returns, a count in \<open>0..5\<close> (\<open>read_touch_count_stored\<close>). On
  a driver that holds the count 2 of an earlier report and whose point-info read fails,
  the early \<open>return 0\<close> leaves the stored count untouched: 0 is returned, 2 stays stored.
\<close>

theorem read_touch_failed_info_keeps_stale_count:
  "fst (read_touch stale_driver) = 0 \<and> Touch (gt_dev (snd (read_touch stale_driver))) = 2"
proof -
  have "\<not> mock_mode stale_driver" "bus stale_driver = Some dead_bus"
    "read_block dead_bus 0x81 0x4E 1 = None"
    by (simp_all add: stale_driver_def init_hardware_def dead_bus_def)
  from read_touch_info_failed [OF this] show ?thesis
    by (simp add: stale_driver_def two_finger_frame_def)
qed

subsection \<open>Saving the previous frame\<close>

text \<open>
  Claim C7, as amended. \<open>scan\<close> records the scan direction, copies the first point
  \<open>X[0]\<close>, \<open>Y[0]\<close> and the count \<open>Touch\<close> of the current frame into the previous frame
  by value, leaving every other slot of the previous frame as it was, and only then calls
  \<open>read_touch\<close>, whose result it returns; \<open>read_touch\<close> does not touch the previous frame.
\<close>

theorem scan_copies_first_point:
  assumes "X (gt_dev self) \<noteq> []" "Y (gt_dev self) \<noteq> []"
    and "X (gt_old self) \<noteq> []" "Y (gt_old self) \<noteq> []"
  shows "scan self sd =
           Inr (read_touch (self\<lparr>scan_dir := sd,
                  gt_old := (gt_old self)\<lparr>X := (X (gt_old self))[0 := X (gt_dev self) ! 0],
                                            Y := (Y (gt_old self))[0 := Y (gt_dev self) ! 0],
                                            Touch := Touch (gt_dev self)\<rparr>\<rparr>))
       \<and> gt_old (snd (projr (scan self sd))) =
           (gt_old self)\<lparr>X := (X (gt_old self))[0 := X (gt_dev self) ! 0],
                          Y := (Y (gt_old self))[0 := Y (gt_dev self) ! 0],
                          Touch := Touch (gt_dev self)\<rparr>
       \<and> scan_dir (snd (projr (scan self sd))) = sd"
proof -
  let ?s = "self\<lparr>scan_dir := sd,
                  gt_old := (gt_old self)\<lparr>X := (X (gt_old self))[0 := X (gt_dev self) ! 0],
                                            Y := (Y (gt_old self))[0 := Y (gt_dev self) ! 0],
                                            Touch := Touch (gt_dev self)\<rparr>\<rparr>"
  have run: "scan self sd = Inr (read_touch ?s)"
    using assms by (simp add: scan_def get_item_def set_item_def Let_def)
  show ?thesis
    by (simp add: run read_touch_gt_old read_touch_scan_dir)
qed

theorem scan_copies_first_point_witness:
  "scan stale_driver 1 \<noteq> Inl IndexError
   \<and> gt_old (snd (projr (scan stale_driver 1))) =
       \<lparr>Touch = 2, X = [125, 0, 0, 0, 0], Y = [121, 0, 0, 0, 0], S = [0, 0, 0, 0, 0]\<rparr>
   \<and> scan_dir (snd (projr (scan stale_driver 1))) = 1"
proof -
  have lists: "X (gt_dev stale_driver) \<noteq> []" "Y (gt_dev stale_driver) \<noteq> []"
    "X (gt_old stale_driver) \<noteq> []" "Y (gt_old stale_driver) \<noteq> []"
    by (simp_all add: stale_driver_def init_hardware_def two_finger_frame_def GT_Old_def
          replicate_5)
  note inst = scan_copies_first_point [OF lists, of 1]
  from inst have ok: "scan stale_driver 1 \<noteq> Inl IndexError"
    by simp
  from inst have old: "gt_old (snd (projr (scan stale_driver 1))) =
           (gt_old stale_driver)\<lparr>X := (X (gt_old stale_driver))[0 := X (gt_dev stale_driver) ! 0],
                          Y := (Y (gt_old stale_driver))[0 := Y (gt_dev stale_driver) ! 0],
                          Touch := Touch (gt_dev stale_driver)\<rparr>"
    by blast
  from inst have dir: "scan_dir (snd (projr (scan stale_driver 1))) = 1"
    by blast
  have "(gt_old stale_driver)\<lparr>X := (X (gt_old stale_driver))[0 := X (gt_dev stale_driver) ! 0],
                          Y := (Y (gt_old stale_driver))[0 := Y (gt_dev stale_driver) ! 0],
                          Touch := Touch (gt_dev stale_driver)\<rparr> =
        \<lparr>Touch = 2, X = [125, 0, 0, 0, 0], Y = [121, 0, 0, 0, 0], S = [0, 0, 0, 0, 0]\<rparr>"
    by (simp add: stale_driver_def init_hardware_def two_finger_frame_def GT_Old_def replicate_5)
  with ok old dir show ?thesis by simp
qed

text \<open>
  Claim C7 as stated fails: after a two-finger report, the previous frame holds the first
  point only and differs from the frame that was current before the call.
\<close>

theorem scan_previous_not_whole_frame:
  "\<not> isl (scan stale_driver 0)
   \<and> gt_old (snd (projr (scan stale_driver 0))) \<noteq> gt_dev stale_driver"
  by (simp add: scan_def get_item_def set_item_def read_touch_gt_old
        stale_driver_def init_hardware_def two_finger_frame_def GT_Old_def replicate_5)

subsection \<open>Button press classification\<close>

lemma dispatch_never_propagates:
  "fst (on_button_released now self) = None \<and> fst (monitor_iteration now p self) = None"
  by (auto simp: on_button_released_def monitor_iteration_def try_except_def invoke_def log_error_def Let_def
      split: option.splits callback.splits)

lemma step_no_exc: "fst (step i self) = None"
  using dispatch_never_propagates by (cases i) auto

lemma run_no_exc: "fst (run inputs self) = None"
proof (induction inputs arbitrary: self)
  case Nil
  then show ?case by simp
next
  case (Cons i inputs)
  obtain s' where "step i self = (None, s')"
    using step_no_exc [of i self] by (cases "step i self") auto
  then show ?case using Cons.IH by simp
qed

lemma run_append:
  "run (xs @ ys) self = run ys (snd (run xs self))"
proof (induction xs arbitrary: self)
  case Nil
  then show ?case by simp
next
  case (Cons i xs)
  obtain s' where "step i self = (None, s')"
    using step_no_exc [of i self] by (cases "step i self") auto
  then show ?case using Cons.IH by simp
qed

lemma polls_latched:
  assumes "long_press_triggered self"
  shows "snd (run (poll_inputs polls) self) = self"
  using assms
  by (induction polls arbitrary: self)
     (auto simp: poll_inputs_def monitor_iteration_def split: option.splits)

lemma polls_idle:
  assumes "press_start_time self = Some t0" "\<not> long_press_triggered self"
    and "\<forall>(t, p) \<in> set polls. \<not> (long_press_threshold self \<le> t - t0 \<and> p)"
  shows "snd (run (poll_inputs polls) self) = self"
  using assms
  by (induction polls arbitrary: self)
     (auto simp: poll_inputs_def monitor_iteration_def Let_def split: option.splits)

lemma trigger_result:
  assumes "press_start_time self = Some t0" "\<not> long_press_triggered self"
    and "long_press_threshold self \<le> t - t0" "p"
  shows "\<exists>extra. snd (monitor_iteration t p self) =
            self\<lparr>long_press_triggered := True, events := events self @ extra\<rparr>
          \<and> filter (\<lambda>e. e = Short_press_called \<or> e = Long_press_called) extra =
              (if on_long_press self = None then [] else [Long_press_called])"
proof (cases "on_long_press self")
  case None
  then show ?thesis
    using assms by (intro exI [of _ "[]"]) (simp add: monitor_iteration_def Let_def)
next
  case (Some cb)
  show ?thesis
  proof (cases cb)
    case Returns
    then show ?thesis
      using assms Some
      by (intro exI [of _ "[Long_press_called]"])
         (simp add: monitor_iteration_def Let_def try_except_def invoke_def)
  next
    case (Raises e)
    then show ?thesis
      using assms Some
      by (intro exI [of _ "[Long_press_called, Error_logged ''Error in long press callback'']"])
         (simp add: monitor_iteration_def Let_def try_except_def invoke_def log_error_def)
  qed
qed

lemma polls_trigger:
  assumes "press_start_time self = Some t0" "\<not> long_press_triggered self" "running self"
    and "\<exists>(t, p) \<in> set polls. long_press_threshold self \<le> t - t0 \<and> p"
  shows "\<exists>extra. snd (run (poll_inputs polls) self) =
            self\<lparr>long_press_triggered := True, events := events self @ extra\<rparr>
          \<and> filter (\<lambda>e. e = Short_press_called \<or> e = Long_press_called) extra =
              (if on_long_press self = None then [] else [Long_press_called])"
  using assms
proof (induction polls)
  case Nil
  then show ?case by simp
next
  case (Cons tp polls)
  obtain t p where tp: "tp = (t, p)" by (cases tp)
  show ?case
  proof (cases "long_press_threshold self \<le> t - t0 \<and> p")
    case True
    from trigger_result [OF Cons.prems(1,2), of t p] True
    obtain extra where res: "snd (monitor_iteration t p self) =
            self\<lparr>long_press_triggered := True, events := events self @ extra\<rparr>"
      and fired: "filter (\<lambda>e. e = Short_press_called \<or> e = Long_press_called) extra =
              (if on_long_press self = None then [] else [Long_press_called])"
      by blast
    have noexc: "fst (monitor_iteration t p self) = None"
      using dispatch_never_propagates by simp
    have "step (Monitor_poll t p) self =
            (None, self\<lparr>long_press_triggered := True, events := events self @ extra\<rparr>)"
      using Cons.prems(3) res noexc by (simp add: prod_eq_iff)
    then have "snd (run (poll_inputs (tp # polls)) self) =
                 snd (run (poll_inputs polls)
                   (self\<lparr>long_press_triggered := True, events := events self @ extra\<rparr>))"
      by (simp add: poll_inputs_def tp)
    also have "\<dots> = self\<lparr>long_press_triggered := True, events := events self @ extra\<rparr>"
      by (rule polls_latched) simp
    finally show ?thesis using fired by blast
  next
    case False
    then have "step (Monitor_poll t p) self = (None, self)"
      using Cons.prems(1,2) by (auto simp: monitor_iteration_def Let_def)
    then have same: "snd (run (poll_inputs (tp # polls)) self) = snd (run (poll_inputs polls) self)"
      by (simp add: poll_inputs_def tp)
    have "\<exists>(t, p) \<in> set polls. long_press_threshold self \<le> t - t0 \<and> p"
      using Cons.prems(4) False tp by auto
    from Cons.IH [OF Cons.prems(1,2,3) this] same show ?thesis by simp
  qed
qed

lemma press_cycle_split:
  "snd (run (press_cycle t0 polls t1) self) =
     snd (on_button_released t1 (snd (run (poll_inputs polls) (on_button_pressed t0 self))))"
proof -
  have "press_cycle t0 polls t1 = [Pressed t0] @ poll_inputs polls @ [Released t1]"
    by (simp add: press_cycle_def)
  then show ?thesis
    by (simp add: run_append del: append.simps)
       (simp add: prod_eq_iff split: prod.splits option.splits)
qed

lemma release_latched:
  assumes "press_start_time self = Some t0" "long_press_triggered self"
  shows "snd (on_button_released t1 self) = self\<lparr>press_start_time := None\<rparr>"
  using assms by (simp add: on_button_released_def Let_def)

lemma release_late:
  assumes "press_start_time self = Some t0" "\<not> long_press_triggered self"
    and "\<not> t1 - t0 < long_press_threshold self"
  shows "snd (on_button_released t1 self) = self\<lparr>press_start_time := None\<rparr>"
  using assms by (simp add: on_button_released_def Let_def)

lemma release_short:
  assumes "press_start_time self = Some t0" "\<not> long_press_triggered self"
    and "t1 - t0 < long_press_threshold self"
  shows "\<exists>extra. snd (on_button_released t1 self) =
            self\<lparr>press_start_time := None, events := events self @ extra\<rparr>
          \<and> filter (\<lambda>e. e = Short_press_called \<or> e = Long_press_called) extra =
              (if on_short_press self = None then [] else [Short_press_called])"
proof (cases "on_short_press self")
  case None
  then show ?thesis
    using assms by (intro exI [of _ "[]"]) (simp add: on_button_released_def Let_def)
next
  case (Some cb)
  show ?thesis
  proof (cases cb)
    case Returns
    then show ?thesis
      using assms Some
      by (intro exI [of _ "[Short_press_called]"])
         (simp add: on_button_released_def Let_def try_except_def invoke_def)
  next
    case (Raises e)
    then show ?thesis
      using assms Some
      by (intro exI [of _ "[Short_press_called, Error_logged ''Error in short press callback'']"])
         (simp add: on_button_released_def Let_def try_except_def invoke_def log_error_def)
  qed
qed

text \<open>
  Claim C1, as amended. In every press-release cycle no exception leaves a handler and at
  most one of the two callbacks is called. If the monitor thread is running, a long-press
  callback is set and some monitor iteration of the cycle finds the button down with an
  elapsed time of at least the threshold, then the latch is set, \<open>on_long_press\<close> is called
  exactly once and the release calls nothing. If a short-press callback is set and the
  release comes before the threshold (no poll being later than the release), then
  \<open>on_short_press\<close> is called exactly once, \<open>on_long_press\<close> is not called and the latch
  stays unset.
\<close>

theorem press_release_cycle:
  "fst (run (press_cycle t0 polls t1) self) = None
   \<and> length (callbacks_fired (snd (run (press_cycle t0 polls t1) self)))
       \<le> length (callbacks_fired self) + 1
   \<and> (running self \<and> on_long_press self \<noteq> None
       \<and> (\<exists>(t, p) \<in> set polls. long_press_threshold self \<le> t - t0 \<and> p) \<longrightarrow>
         callbacks_fired (snd (run (press_cycle t0 polls t1) self)) =
           callbacks_fired self @ [Long_press_called]
       \<and> long_press_triggered (snd (run (press_cycle t0 polls t1) self)))
   \<and> (on_short_press self \<noteq> None \<and> t1 - t0 < long_press_threshold self
       \<and> (\<forall>(t, p) \<in> set polls. t \<le> t1) \<longrightarrow>
         callbacks_fired (snd (run (press_cycle t0 polls t1) self)) =
           callbacks_fired self @ [Short_press_called]
       \<and> \<not> long_press_triggered (snd (run (press_cycle t0 polls t1) self)))"
proof -
  let ?s0 = "on_button_pressed t0 self"
  let ?s1 = "snd (run (poll_inputs polls) ?s0)"
  let ?s2 = "snd (on_button_released t1 ?s1)"
  let ?trig = "\<exists>(t, p) \<in> set polls. long_press_threshold self \<le> t - t0 \<and> p"
  have s0: "press_start_time ?s0 = Some t0" "\<not> long_press_triggered ?s0"
    "running ?s0 = running self" "long_press_threshold ?s0 = long_press_threshold self"
    "on_long_press ?s0 = on_long_press self" "on_short_press ?s0 = on_short_press self"
    "events ?s0 = events self"
    by (simp_all add: on_button_pressed_def)
  have final: "snd (run (press_cycle t0 polls t1) self) = ?s2"
    by (rule press_cycle_split)
  have long_case: "callbacks_fired ?s2 = callbacks_fired self @
           (if on_long_press self = None then [] else [Long_press_called])
         \<and> long_press_triggered ?s2"
    if "running self" ?trig
  proof -
    have "\<exists>(t, p) \<in> set polls. long_press_threshold ?s0 \<le> t - t0 \<and> p"
      using that(2) s0(4) by simp
    from polls_trigger [OF s0(1,2) _ this] that(1) s0(3)
    obtain extra where s1: "?s1 = ?s0\<lparr>long_press_triggered := True, events := events ?s0 @ extra\<rparr>"
      and fired: "filter (\<lambda>e. e = Short_press_called \<or> e = Long_press_called) extra =
              (if on_long_press ?s0 = None then [] else [Long_press_called])"
      by auto
    have "press_start_time ?s1 = Some t0" "long_press_triggered ?s1"
      using s0(1) by (simp_all add: s1)
    from release_latched [OF this] have "?s2 = ?s1\<lparr>press_start_time := None\<rparr>" .
    then show ?thesis
      using fired s0 by (simp add: s1 callbacks_fired_def)
  qed
  have quiet_polls: "?s1 = ?s0" if "\<not> (running self \<and> ?trig)"
  proof (cases "running self")
    case True
    with that have "\<forall>(t, p) \<in> set polls. \<not> (long_press_threshold ?s0 \<le> t - t0 \<and> p)"
      using s0(4) by auto
    from polls_idle [OF s0(1,2) this] show ?thesis .
  next
    case False
    then have "\<And>inputs. snd (run (poll_inputs inputs) ?s0) = ?s0"
    proof -
      fix inputs
      show "snd (run (poll_inputs inputs) ?s0) = ?s0"
        using False s0(3) by (induction inputs) (auto simp: poll_inputs_def)
    qed
    then show ?thesis .
  qed
  have short_case: "callbacks_fired ?s2 = callbacks_fired self @
           (if on_short_press self = None then [] else [Short_press_called])
         \<and> \<not> long_press_triggered ?s2"
    if "\<not> (running self \<and> ?trig)" "t1 - t0 < long_press_threshold self"
  proof -
    have s1: "?s1 = ?s0" using quiet_polls that(1) .
    have "t1 - t0 < long_press_threshold ?s0" using that(2) s0(4) by simp
    from release_short [OF s0(1,2) this]
    obtain extra where s2: "snd (on_button_released t1 ?s0) =
            ?s0\<lparr>press_start_time := None, events := events ?s0 @ extra\<rparr>"
      and fired: "filter (\<lambda>e. e = Short_press_called \<or> e = Long_press_called) extra =
              (if on_short_press ?s0 = None then [] else [Short_press_called])"
      by blast
    show ?thesis
      using fired s0 by (simp add: s1 s2 callbacks_fired_def)
  qed
  have late_case: "callbacks_fired ?s2 = callbacks_fired self \<and> \<not> long_press_triggered ?s2"
    if "\<not> (running self \<and> ?trig)" "\<not> t1 - t0 < long_press_threshold self"
  proof -
    have s1: "?s1 = ?s0" using quiet_polls that(1) .
    have "\<not> t1 - t0 < long_press_threshold ?s0" using that(2) s0(4) by simp
    from release_late [OF s0(1,2) this]
    have "snd (on_button_released t1 ?s0) = ?s0\<lparr>press_start_time := None\<rparr>" .
    then show ?thesis
      using s0 by (simp add: s1 callbacks_fired_def)
  qed
  have no_exc: "fst (run (press_cycle t0 polls t1) self) = None"
    by (rule run_no_exc)
  have at_most_one: "length (callbacks_fired ?s2) \<le> length (callbacks_fired self) + 1"
  proof (cases "running self \<and> ?trig")
    case True
    then show ?thesis using long_case by simp
  next
    case False
    then show ?thesis
      using short_case [OF False] late_case [OF False]
      by (cases "t1 - t0 < long_press_threshold self") simp_all
  qed
  have long_fires: "callbacks_fired ?s2 = callbacks_fired self @ [Long_press_called]
       \<and> long_press_triggered ?s2"
    if "running self \<and> on_long_press self \<noteq> None \<and> ?trig"
    using long_case that by simp
  have short_fires: "callbacks_fired ?s2 = callbacks_fired self @ [Short_press_called]
       \<and> \<not> long_press_triggered ?s2"
    if h: "on_short_press self \<noteq> None \<and> t1 - t0 < long_press_threshold self
       \<and> (\<forall>(t, p) \<in> set polls. t \<le> t1)"
  proof -
    have "\<not> ?trig"
    proof
      assume ?trig
      then obtain t p where "(t, p) \<in> set polls" "long_press_threshold self \<le> t - t0"
        by auto
      moreover from this h have "t \<le> t1" by auto
      ultimately show False using h by linarith
    qed
    then have "\<not> (running self \<and> ?trig)" by simp
    from short_case [OF this] h show ?thesis by simp
  qed
  from no_exc at_most_one long_fires short_fires show ?thesis
    unfolding final by blast
qed

theorem press_release_cycle_witness:
  "callbacks_fired (snd (run (press_cycle 0 [(1.0, True), (2.05, True), (2.15, True)] 2.5)
      demo_handler)) = [Long_press_called]
   \<and> long_press_triggered (snd (run (press_cycle 0 [(1.0, True), (2.05, True), (2.15, True)] 2.5)
      demo_handler))
   \<and> callbacks_fired (snd (run (press_cycle 0 [(0.95, True), (1.85, True)] 1.9) demo_handler)) =
       [Short_press_called]"
proof -
  have h: "running demo_handler" "on_long_press demo_handler \<noteq> None"
    "on_short_press demo_handler \<noteq> None" "long_press_threshold demo_handler = 2"
    "callbacks_fired demo_handler = []"
    by (simp_all add: demo_handler_def start_def ButtonInputHandler_def callbacks_fired_def)
  have long: "\<exists>(t, p) \<in> set [(1.0, True), (2.05, True), (2.15::real, True)].
                 long_press_threshold demo_handler \<le> t - 0 \<and> p"
    by (simp add: h)
  have short: "(1.9::real) - 0 < long_press_threshold demo_handler
      \<and> (\<forall>(t, p) \<in> set [(0.95, True), (1.85::real, True)]. t \<le> 1.9)"
    by (simp add: h)
  show ?thesis
    using press_release_cycle [of "0::real" "[(1.0, True), (2.05, True), (2.15, True)]" "2.5" demo_handler]
      press_release_cycle [of "0::real" "[(0.95, True), (1.85, True)]" "1.9" demo_handler]
      h long short
    by simp
qed

text \<open>
  Claim C1 as stated fails: a press held for 2.04 s, at least the threshold of 2.0 s, and
  released between the monitor polls at 1.95 s and 2.05 s calls neither callback and leaves
  the latch unset.
\<close>

theorem long_hold_between_polls_fires_nothing:
  "long_press_threshold demo_handler \<le> 2.04 - 0
   \<and> callbacks_fired (snd (run (press_cycle 0 gap_polls 2.04) demo_handler)) = []
   \<and> \<not> long_press_triggered (snd (run (press_cycle 0 gap_polls 2.04) demo_handler))"
proof -
  let ?s0 = "on_button_pressed 0 demo_handler"
  have thr: "long_press_threshold demo_handler = 2"
    by (simp add: demo_handler_def start_def ButtonInputHandler_def)
  have s0: "press_start_time ?s0 = Some 0" "\<not> long_press_triggered ?s0"
    "long_press_threshold ?s0 = 2"
    by (simp_all add: on_button_pressed_def thr)
  have early: "\<forall>(t, p) \<in> set gap_polls. \<not> (long_press_threshold ?s0 \<le> t - 0 \<and> p)"
    by (auto simp: gap_polls_def s0)
  have polls: "snd (run (poll_inputs gap_polls) ?s0) = ?s0"
    using polls_idle [OF s0(1,2) early] .
  have "\<not> (2.04::real) - 0 < long_press_threshold ?s0"
    by (simp add: s0)
  from release_late [OF s0(1,2) this]
  have "snd (on_button_released 2.04 ?s0) = ?s0\<lparr>press_start_time := None\<rparr>" .
  then have "snd (run (press_cycle 0 gap_polls 2.04) demo_handler) = ?s0\<lparr>press_start_time := None\<rparr>"
    by (simp add: press_cycle_split polls)
  then show ?thesis
    by (simp add: thr callbacks_fired_def on_button_pressed_def demo_handler_def start_def
          ButtonInputHandler_def)
qed

subsection \<open>Exceptions of callbacks\<close>

lemma irq_iteration_handled:
  assumes "\<forall>e. on_error self \<noteq> Some (Raises e)"
  shows "fst (irq_iteration pin_read self) = None"
  using assms
  by (auto simp: irq_iteration_def split: sum.splits option.splits callback.splits)

lemma default_handler_keeps_polling:
  "fst (irq_loop [Inl IOError, Inr 0] (start_touch (TouchHandler GT_Development None))) = Polling
   \<and> Touch (th_gt_dev (snd (irq_loop [Inl IOError, Inr 0]
        (start_touch (TouchHandler GT_Development None))))) = 1"
  by (simp add: start_touch_def TouchHandler_def irq_iteration_def)

text \<open>
  Claim C8. The claim says that an exception raised by a user-supplied callback never
  leaves the dispatch site, so that the polling loop goes on. The button handler does
  that (\<open>dispatch_never_propagates\<close>). In the touch polling loop the user-supplied
  \<open>on_error\<close> callback is called outside any \<open>try\<close>: when the pin read fails and \<open>on_error\<close>
  raises, the exception leaves \<open>_irq_loop\<close>, the thread dies and the next reading (a touch,
  level 0) is never taken.
\<close>

theorem raising_error_handler_kills_polling_loop:
  "fst (irq_loop [Inl IOError, Inr 0]
          (start_touch (TouchHandler GT_Development (Some (Raises RuntimeError))))) =
     Died RuntimeError
   \<and> Touch (th_gt_dev (snd (irq_loop [Inl IOError, Inr 0]
          (start_touch (TouchHandler GT_Development (Some (Raises RuntimeError))))))) = 0"
  by (simp add: start_touch_def TouchHandler_def irq_iteration_def GT_Development_def)

subsection \<open>Waiting for the panel\<close>





lemma wait_loop_idle:
  assumes "\<not> epd_mock_mode self"
    and "\<forall>j<k. busy_line self (clock self + 10 * j) = 1"
    and "busy_line self (clock self + 10 * k) \<noteq> 1"
    and "clock self + 10 * k \<le> timeout"
  shows "wait_loop timeout self =
           self\<lparr>clock := clock self + 10 * k,
                hw_trace := hw_trace self @ concat (replicate k poll_busy) @ [GPIO_input BUSY_PIN]\<rparr>"
  using assms
proof (induction k arbitrary: self)
  case 0
  then show ?case by (subst wait_loop.simps) (simp add: digital_read_def)
next
  case (Suc k)
  let ?s1 = "self\<lparr>clock := clock self + 10, hw_trace := hw_trace self @ poll_busy\<rparr>"
  have busy: "busy_line self (clock self) = 1"
    using Suc.prems(2) [rule_format, of 0] by simp
  have step: "wait_loop timeout self = wait_loop timeout ?s1"
    using Suc.prems(1,4) busy
    by (subst wait_loop.simps) (simp add: digital_read_def time_sleep_def poll_busy_def Let_def)
  have a: "\<not> epd_mock_mode ?s1" using Suc.prems(1) by simp
  have b: "\<forall>j<k. busy_line ?s1 (clock ?s1 + 10 * j) = 1"
  proof (intro allI impI)
    fix j assume "j < k"
    then have "busy_line self (clock self + 10 * Suc j) = 1"
      using Suc.prems(2) [rule_format, of "Suc j"] by simp
    then show "busy_line ?s1 (clock ?s1 + 10 * j) = 1"
      by (simp add: add.assoc)
  qed
  have c: "busy_line ?s1 (clock ?s1 + 10 * k) \<noteq> 1"
    using Suc.prems(3) by (simp add: add.assoc)
  have d: "clock ?s1 + 10 * k \<le> timeout"
    using Suc.prems(4) by simp
  show ?case
    unfolding step by (subst Suc.IH [OF a b c d]) (simp add: add.assoc)
qed

lemma wait_loop_timeout:
  assumes "\<not> epd_mock_mode self"
    and "\<forall>j\<le>n. busy_line self (clock self + 10 * j) = 1"
    and "clock self + 10 * n \<le> timeout"
    and "timeout < clock self + 10 * Suc n"
  shows "wait_loop timeout self =
           self\<lparr>clock := clock self + 10 * Suc n,
                hw_trace := hw_trace self @ concat (replicate (Suc n) poll_busy)
                              @ [Log_warning ''Display busy timeout!'']\<rparr>"
  using assms
proof (induction n arbitrary: self)
  case 0
  have busy: "busy_line self (clock self) = 1"
    using "0.prems"(2) by simp
  show ?case
    using "0.prems"(1,4) busy
    by (subst wait_loop.simps) (simp add: digital_read_def time_sleep_def poll_busy_def Let_def)
next
  case (Suc n)
  let ?s1 = "self\<lparr>clock := clock self + 10, hw_trace := hw_trace self @ poll_busy\<rparr>"
  have busy: "busy_line self (clock self) = 1"
    using Suc.prems(2) [rule_format, of 0] by simp
  have step: "wait_loop timeout self = wait_loop timeout ?s1"
    using Suc.prems(1,3) busy
    by (subst wait_loop.simps) (simp add: digital_read_def time_sleep_def poll_busy_def Let_def)
  have a: "\<not> epd_mock_mode ?s1" using Suc.prems(1) by simp
  have b: "\<forall>j\<le>n. busy_line ?s1 (clock ?s1 + 10 * j) = 1"
  proof (intro allI impI)
    fix j assume "j \<le> n"
    then have "busy_line self (clock self + 10 * Suc j) = 1"
      using Suc.prems(2) [rule_format, of "Suc j"] by simp
    then show "busy_line ?s1 (clock ?s1 + 10 * j) = 1"
      by (simp add: add.assoc)
  qed
  have c: "clock ?s1 + 10 * n \<le> timeout"
    using Suc.prems(3) by simp
  have d: "timeout < clock ?s1 + 10 * Suc n"
    using Suc.prems(4) by simp
  show ?case
    unfolding step by (subst Suc.IH [OF a b c d]) (simp add: add.assoc)
qed




lemma ReadBusy_idle:
  assumes "\<forall>j<k. busy_line_V4 self (clock_V4 self + 10 * j) = 1"
    and "busy_line_V4 self (clock_V4 self + 10 * k) \<noteq> 1"
  shows "ReadBusy self =
           Some (self\<lparr>clock_V4 := clock_V4 self + 10 * k,
                      cfg_trace := cfg_trace self @ concat (replicate k (poll_busy_V4 self))
                                     @ [Digital_read (busy_pin self)]\<rparr>)"
  using assms
proof (induction k arbitrary: self)
  case 0
  then show ?case
    by (subst ReadBusy.simps) (simp add: cfg_call_def)
next
  case (Suc k)
  let ?s1 = "self\<lparr>cfg_trace := cfg_trace self @ poll_busy_V4 self,
                   clock_V4 := clock_V4 self + 10\<rparr>"
  have busy: "busy_line_V4 self (clock_V4 self) = 1"
    using Suc.prems(1) [rule_format, of 0] by simp
  have step: "ReadBusy self = ReadBusy ?s1"
    using busy
    by (subst ReadBusy.simps) (simp add: cfg_call_def delay_ms_def poll_busy_V4_def)
  have a: "\<forall>j<k. busy_line_V4 ?s1 (clock_V4 ?s1 + 10 * j) = 1"
  proof (intro allI impI)
    fix j assume "j < k"
    then have "busy_line_V4 self (clock_V4 self + 10 * Suc j) = 1"
      using Suc.prems(1) [rule_format, of "Suc j"] by simp
    then show "busy_line_V4 ?s1 (clock_V4 ?s1 + 10 * j) = 1"
      by (simp add: add.assoc)
  qed
  have b: "busy_line_V4 ?s1 (clock_V4 ?s1 + 10 * k) \<noteq> 1"
    using Suc.prems(2) by (simp add: add.assoc)
  show ?case
    unfolding step by (subst Suc.IH [OF a b]) (simp add: add.assoc poll_busy_V4_def)
qed

lemma ReadBusy_returns_idle:
  assumes "ReadBusy self = Some s'"
  shows "\<exists>j. busy_line_V4 self (clock_V4 self + 10 * j) \<noteq> 1"
  using assms
proof (induction rule: ReadBusy.raw_induct [rotated 1, consumes 1])
  case (1 loop self s')
  show ?case
  proof (cases "busy_line_V4 self (clock_V4 self) = 1")
    case False
    then have "busy_line_V4 self (clock_V4 self + 10 * 0) \<noteq> 1" by simp
    then show ?thesis by blast
  next
    case True
    let ?s1 = "delay_ms 10 (cfg_call (Digital_read (busy_pin self)) self)"
    from "1.hyps" True have "loop ?s1 = Some s'" by simp
    from "1.IH" [OF this] obtain j where "busy_line_V4 ?s1 (clock_V4 ?s1 + 10 * j) \<noteq> 1"
      by blast
    then have "busy_line_V4 self (clock_V4 self + 10 * Suc j) \<noteq> 1"
      by (simp add: delay_ms_def cfg_call_def add.assoc)
    then show ?thesis by blast
  qed
qed

lemma ReadBusy_stuck:
  assumes "\<forall>j. busy_line_V4 self (clock_V4 self + 10 * j) = 1"
  shows "ReadBusy self = None"
proof (cases "ReadBusy self")
  case None
  then show ?thesis .
next
  case (Some s')
  from ReadBusy_returns_idle [OF this] assms show ?thesis by blast
qed


lemma wait_until_idle_PyNone: "fst (wait_until_idle self) = PyNone"
  by (simp add: wait_until_idle_def Let_def)

lemma wait_until_idle_reached:
  assumes "\<not> epd_mock_mode self" "k \<le> 1000"
    and "\<forall>j<k. busy_line self (clock self + 10 * j) = 1"
    and "busy_line self (clock self + 10 * k) \<noteq> 1"
  shows "snd (wait_until_idle self) =
           self\<lparr>clock := clock self + 10 * k + 10,
                hw_trace := hw_trace self @ concat (replicate k poll_busy)
                              @ [GPIO_input BUSY_PIN, Sleep 10]\<rparr>"
proof -
  have "clock self + 10 * k \<le> clock self + 10000" using assms(2) by simp
  from wait_loop_idle [OF assms(1,3,4) this] show ?thesis
    using assms(1) by (simp add: wait_until_idle_def Let_def time_sleep_def)
qed

lemma wait_until_idle_timed_out:
  assumes "\<not> epd_mock_mode self"
    and "\<forall>j\<le>1000. busy_line self (clock self + 10 * j) = 1"
  shows "snd (wait_until_idle self) =
           self\<lparr>clock := clock self + 10020,
                hw_trace := hw_trace self @ concat (replicate 1001 poll_busy)
                              @ [Log_warning ''Display busy timeout!'', Sleep 10]\<rparr>"
proof -
  define polls where "polls = concat (replicate (Suc 1000) poll_busy)"
  have suc: "Suc 1000 = 1001" by simp
  have a: "clock self + 10 * 1000 \<le> clock self + 10000" by simp
  have b: "clock self + 10000 < clock self + 10 * Suc 1000" by simp
  have loop: "wait_loop (clock self + 10000) self =
           self\<lparr>clock := clock self + 10 * Suc 1000,
                hw_trace := hw_trace self @ polls @ [Log_warning ''Display busy timeout!'']\<rparr>"
    unfolding polls_def by (rule wait_loop_timeout [OF assms(1,2) a b])
  have res: "snd (wait_until_idle self) = time_sleep 10 (wait_loop (clock self + 10000) self)"
    using assms(1) by (simp add: wait_until_idle_def Let_def)
  have "snd (wait_until_idle self) =
           self\<lparr>clock := clock self + 10020,
                hw_trace := hw_trace self @ polls
                              @ [Log_warning ''Display busy timeout!'', Sleep 10]\<rparr>"
    by (simp add: res loop time_sleep_def)
  then show ?thesis
    unfolding polls_def suc .
qed

text \<open>
  Claim C6, as amended. \<open>_wait_until_idle()\<close> takes no timeout argument and returns
  \<open>None\<close> on every path. In mock mode it sleeps 10 ms and touches no pin. In hardware mode
  it polls the busy line every 10 ms: if the line is idle at poll \<open>k \<le> 1000\<close> it stops
  there without a warning, sleeps 10 ms and returns; if the line is busy at all 1001 polls
  of the fixed 10 s window it logs one warning, sleeps 10 ms and returns normally, 10.02 s
  after the call. \<open>ReadBusy\<close> of the V4 driver polls every 10 ms without any timeout: it
  returns at the first idle poll and never returns while the line stays busy.
\<close>

theorem wait_until_idle_outcomes:
  "fst (wait_until_idle self) = PyNone
   \<and> (epd_mock_mode self \<longrightarrow>
        snd (wait_until_idle self) =
          self\<lparr>clock := clock self + 10, hw_trace := hw_trace self @ [Sleep 10]\<rparr>)
   \<and> (\<not> epd_mock_mode self \<and> k \<le> 1000
       \<and> (\<forall>j<k. busy_line self (clock self + 10 * j) = 1)
       \<and> busy_line self (clock self + 10 * k) \<noteq> 1 \<longrightarrow>
        snd (wait_until_idle self) =
          self\<lparr>clock := clock self + 10 * k + 10,
               hw_trace := hw_trace self @ concat (replicate k poll_busy)
                             @ [GPIO_input BUSY_PIN, Sleep 10]\<rparr>)
   \<and> (\<not> epd_mock_mode self
       \<and> (\<forall>j\<le>1000. busy_line self (clock self + 10 * j) = 1) \<longrightarrow>
        snd (wait_until_idle self) =
          self\<lparr>clock := clock self + 10020,
               hw_trace := hw_trace self @ concat (replicate 1001 poll_busy)
                             @ [Log_warning ''Display busy timeout!'', Sleep 10]\<rparr>)
   \<and> ((\<forall>j<n. busy_line_V4 dev (clock_V4 dev + 10 * j) = 1)
       \<and> busy_line_V4 dev (clock_V4 dev + 10 * n) \<noteq> 1 \<longrightarrow>
        ReadBusy dev =
          Some (dev\<lparr>clock_V4 := clock_V4 dev + 10 * n,
                     cfg_trace := cfg_trace dev @ concat (replicate n (poll_busy_V4 dev))
                                    @ [Digital_read (busy_pin dev)]\<rparr>))
   \<and> ((\<forall>j. busy_line_V4 dev (clock_V4 dev + 10 * j) = 1) \<longrightarrow> ReadBusy dev = None)"
proof -
  have mock: "epd_mock_mode self \<longrightarrow>
        snd (wait_until_idle self) =
          self\<lparr>clock := clock self + 10, hw_trace := hw_trace self @ [Sleep 10]\<rparr>"
    by (simp add: wait_until_idle_def time_sleep_def)
  from wait_until_idle_PyNone mock wait_until_idle_reached wait_until_idle_timed_out
    ReadBusy_idle ReadBusy_stuck
  show ?thesis by blast
qed

theorem wait_until_idle_outcomes_witness:
  "fst (wait_until_idle slow_panel) = PyNone
   \<and> snd (wait_until_idle slow_panel) =
       slow_panel\<lparr>clock := 40,
                   hw_trace := concat (replicate 3 poll_busy) @ [GPIO_input BUSY_PIN, Sleep 10]\<rparr>
   \<and> clock (snd (wait_until_idle stuck_panel)) = 10020
   \<and> hw_trace (snd (wait_until_idle mock_panel)) = [Sleep 10]
   \<and> ReadBusy idle_panel_V4 = Some (idle_panel_V4\<lparr>cfg_trace := [Digital_read 24]\<rparr>)
   \<and> ReadBusy stuck_panel_V4 = None"
proof -
  have slow: "\<not> epd_mock_mode slow_panel \<and> (3::nat) \<le> 1000
       \<and> (\<forall>j<3. busy_line slow_panel (clock slow_panel + 10 * j) = 1)
       \<and> busy_line slow_panel (clock slow_panel + 10 * 3) \<noteq> 1"
    "clock slow_panel = 0" "hw_trace slow_panel = []"
    by (auto simp: slow_panel_def EPD_def)
  have stuck: "\<not> epd_mock_mode stuck_panel
       \<and> (\<forall>j\<le>1000. busy_line stuck_panel (clock stuck_panel + 10 * j) = 1)"
    "clock stuck_panel = 0"
    by (simp_all add: stuck_panel_def EPD_def)
  have mk: "epd_mock_mode mock_panel" "hw_trace mock_panel = []"
    by (simp_all add: mock_panel_def EPD_def)
  have idle4: "(\<forall>j<0. busy_line_V4 idle_panel_V4 (clock_V4 idle_panel_V4 + 10 * j) = 1)
       \<and> busy_line_V4 idle_panel_V4 (clock_V4 idle_panel_V4 + 10 * 0) \<noteq> 1"
    by (simp add: idle_panel_V4_def EPD_V4_def)
  have idle4_fields: "cfg_trace idle_panel_V4 = []" "busy_pin idle_panel_V4 = 24"
    by (simp_all add: idle_panel_V4_def EPD_V4_def)
  have stuck4: "\<forall>j. busy_line_V4 stuck_panel_V4 (clock_V4 stuck_panel_V4 + 10 * j) = 1"
    by (simp add: stuck_panel_V4_def EPD_V4_def)
  note a = wait_until_idle_outcomes [where self = slow_panel and k = 3 and n = 0
      and dev = idle_panel_V4]
  note b = wait_until_idle_outcomes [where self = stuck_panel and k = 0 and n = 0
      and dev = stuck_panel_V4]
  note c = wait_until_idle_outcomes [where self = mock_panel and k = 0 and n = 0
      and dev = stuck_panel_V4]
  from a have a1: "fst (wait_until_idle slow_panel) = PyNone" by blast
  from a slow(1) have a2: "snd (wait_until_idle slow_panel) =
          slow_panel\<lparr>clock := clock slow_panel + 10 * 3 + 10,
               hw_trace := hw_trace slow_panel @ concat (replicate 3 poll_busy)
                             @ [GPIO_input BUSY_PIN, Sleep 10]\<rparr>"
    by blast
  from a idle4 have a3: "ReadBusy idle_panel_V4 =
          Some (idle_panel_V4\<lparr>clock_V4 := clock_V4 idle_panel_V4 + 10 * 0,
                     cfg_trace := cfg_trace idle_panel_V4
                        @ concat (replicate 0 (poll_busy_V4 idle_panel_V4))
                        @ [Digital_read (busy_pin idle_panel_V4)]\<rparr>)"
    by blast
  from b stuck(1) have b1: "snd (wait_until_idle stuck_panel) =
          stuck_panel\<lparr>clock := clock stuck_panel + 10020,
               hw_trace := hw_trace stuck_panel @ concat (replicate 1001 poll_busy)
                             @ [Log_warning ''Display busy timeout!'', Sleep 10]\<rparr>"
    by blast
  from b stuck4 have b2: "ReadBusy stuck_panel_V4 = None" by blast
  from c mk(1) have c1: "snd (wait_until_idle mock_panel) =
          mock_panel\<lparr>clock := clock mock_panel + 10, hw_trace := hw_trace mock_panel @ [Sleep 10]\<rparr>"
    by blast
  have "clock (snd (wait_until_idle stuck_panel)) = 10020"
    by (simp add: b1 stuck(2))
  moreover have "hw_trace (snd (wait_until_idle mock_panel)) = [Sleep 10]"
    by (simp add: c1 mk(2))
  moreover have "snd (wait_until_idle slow_panel) =
       slow_panel\<lparr>clock := 40,
                   hw_trace := concat (replicate 3 poll_busy) @ [GPIO_input BUSY_PIN, Sleep 10]\<rparr>"
    by (simp add: a2 slow(2,3))
  moreover have "ReadBusy idle_panel_V4 = Some (idle_panel_V4\<lparr>cfg_trace := [Digital_read 24]\<rparr>)"
    by (simp add: a3 idle4_fields)
  ultimately show ?thesis using a1 b2 by simp
qed

text \<open>
  Claim C6 as stated fails: the value returned is \<open>None\<close>, the same after a wait that
  found the panel idle, after one that ran into the timeout, and in mock mode, so it does
  not tell whether idle was reached.
\<close>

theorem wait_until_idle_returns_no_boolean:
  "fst (wait_until_idle idle_panel) = PyNone
   \<and> fst (wait_until_idle stuck_panel) = PyNone
   \<and> fst (wait_until_idle mock_panel) = PyNone
   \<and> Log_warning ''Display busy timeout!'' \<in> set (hw_trace (snd (wait_until_idle stuck_panel)))
   \<and> Log_warning ''Display busy timeout!'' \<notin> set (hw_trace (snd (wait_until_idle idle_panel)))"
proof -
  have stuck: "\<not> epd_mock_mode stuck_panel"
    "\<forall>j\<le>1000. busy_line stuck_panel (clock stuck_panel + 10 * j) = 1"
    by (simp_all add: stuck_panel_def EPD_def)
  have idle: "\<not> epd_mock_mode idle_panel" "(0::nat) \<le> 1000"
    "\<forall>j<0. busy_line idle_panel (clock idle_panel + 10 * j) = 1"
    "busy_line idle_panel (clock idle_panel + 10 * 0) \<noteq> 1"
    "hw_trace idle_panel = []"
    by (simp_all add: idle_panel_def EPD_def)
  have "Log_warning ''Display busy timeout!'' \<in> set (hw_trace (snd (wait_until_idle stuck_panel)))"
    by (simp add: wait_until_idle_timed_out [OF stuck])
  moreover have "Log_warning ''Display busy timeout!'' \<notin> set (hw_trace (snd (wait_until_idle idle_panel)))"
    by (simp add: wait_until_idle_reached [OF idle(1-4)] idle(5))
  ultimately show ?thesis by (simp add: wait_until_idle_PyNone)
qed

subsection \<open>Clearing the panel\<close>




lemma linewidth_default: "width_V4 self = 122 \<Longrightarrow> linewidth_V4 self = 16"
  by (simp add: linewidth_V4_def int_truediv_def)




subsection \<open>Seeding both RAM banks\<close>





subsection \<open>Buffer for an image of the wrong size\<close>

text \<open>
  Claim C10. On the V4 driver with its 122 by 250 panel, an image whose size is neither
  (122, 250) nor (250, 122) makes \<open>getbuffer\<close> return, without raising and without
  calling the image library, a list of \<open>int(width / 8) * height = 3750\<close> zero bytes, while
  a framebuffer line takes \<open>linewidth = 16\<close> bytes and a framebuffer 4000.
\<close>

theorem getbuffer_V4_size_mismatch:
  assumes "width_V4 self = 122" "height_V4 self = 250"
    and "im_size img \<noteq> (122, 250)" "im_size img \<noteq> (250, 122)"
  shows "getbuffer_V4 lib self img = Inr (replicate 3750 0x00)
       \<and> length (replicate 3750 (0x00::int)) = 3750
       \<and> (3750::int) = int_truediv (width_V4 self) 8 * height_V4 self
       \<and> linewidth_V4 self * height_V4 self = 4000"
proof -
  obtain w h where wh: "im_size img = (w, h)" by (cases "im_size img")
  with assms(3,4) have "\<not> (w = 122 \<and> h = 250)" "\<not> (w = 250 \<and> h = 122)" by auto
  then have "getbuffer_V4 lib self img = Inr (replicate 3750 0x00)"
    using assms(1,2) wh by (auto simp: getbuffer_V4_def int_truediv_def)
  then show ?thesis
    using assms(1,2) by (simp add: int_truediv_def linewidth_default)
qed

theorem getbuffer_V4_size_mismatch_witness:
  "getbuffer_V4 failing_pil idle_panel_V4 square_image = Inr (replicate 3750 0x00)
   \<and> linewidth_V4 idle_panel_V4 * height_V4 idle_panel_V4 = 4000"
proof -
  have "width_V4 idle_panel_V4 = 122" "height_V4 idle_panel_V4 = 250"
    "im_size square_image \<noteq> (122, 250)" "im_size square_image \<noteq> (250, 122)"
    by (simp_all add: idle_panel_V4_def EPD_V4_def square_image_def)
  from getbuffer_V4_size_mismatch [OF this, of failing_pil] show ?thesis by simp
qed

end
